theory Spec2Isabelle
  imports Main "HOL-Library.Sublist" "HOL-Library.List_Lexorder" "HOL-Library.Char_ord"
    "HOL-Library.Multiset"
begin

section \<open>Python strings\<close>

text \<open>
  The program is \<^verbatim>\<open>mediumvioletred.py\<close>, a PyQt5 window (class
  \<^verbatim>\<open>FontGeneratorApp\<close>) that drives FontForge and edits an HTML file with
  BeautifulSoup. A Python \<^verbatim>\<open>str\<close> is modelled as a \<^typ>\<open>string\<close> holding its
  UTF-8 bytes: concatenation, \<^verbatim>\<open>join\<close>, \<^verbatim>\<open>replace\<close> of an ASCII pattern, emptiness and the
  lexicographic order (UTF-8 keeps the order of code points) agree with Python's on code
  points. The order on strings is the lexicographic one of List_Lexorder
  over the byte order of Char_ord, which is how Python compares
  \<^verbatim>\<open>str\<close> values in \<^verbatim>\<open>sorted\<close>.
\<close>

text \<open>\<^verbatim>\<open>sep.join(xs)\<close>.\<close>

fun join :: "string \<Rightarrow> string list \<Rightarrow> string" where
  "join sep [] = []"
| "join sep [x] = x"
| "join sep (x # y # ys) = x @ sep @ join sep (y # ys)"

text \<open>
  \<^verbatim>\<open>s.replace(old, new)\<close> for a non-empty \<^verbatim>\<open>old\<close>: every occurrence, left to right,
  without overlap. (With an empty pattern Python inserts \<^verbatim>\<open>new\<close> around every character;
  the program never calls it so, and the model leaves the string as it is.)
\<close>

fun str_replace :: "string \<Rightarrow> string \<Rightarrow> string \<Rightarrow> string" where
  "str_replace old new [] = []"
| "str_replace old new (c # cs) =
     (if old \<noteq> [] \<and> prefix old (c # cs)
      then new @ str_replace old new (drop (length old - 1) cs)
      else c # str_replace old new cs)"

section \<open>The FontForge script (lines 15, 202-241)\<close>

definition FONT_NAME :: string where
  "FONT_NAME = ''MyCustomFont''"

text \<open>
  \<^verbatim>\<open>generate_fontforge_script(self, output_file)\<close> returns one f-string: the text below,
  line by line as the source has it (the first line after the opening quotes is empty, the
  last is the indentation before the closing quotes), with \<^verbatim>\<open>FONT_NAME\<close> and
  \<^verbatim>\<open>output_file.replace('\\\\', '/')\<close> substituted. The replacement field holds backslashes,
  which Python accepts from version 3.12 on; there the literal \<^verbatim>\<open>'\\\\'\<close> is two
  backslash characters, so every pair of backslashes becomes one slash. The function takes
  no list of glyphs: the script loops over the arguments FontForge is started with.
\<close>

definition script_lines :: "string \<Rightarrow> string list" where
  \<open>script_lines output_file = [
     '''',
     ''        # Crear una nueva fuente'',
     ''        New()'',
     '''',
     ''        # Configurar metadatos de la fuente'',
     ''        SetFontNames("'' @ FONT_NAME @ ''", "'' @ FONT_NAME @ ''", "'' @ FONT_NAME @ ''", "Regular")'',
     ''        SetTTFName(0x409, 1, "'' @ FONT_NAME @ ''")'',
     ''        SetTTFName(0x409, 2, "Regular")'',
     ''        SetTTFName(0x409, 3, "'' @ FONT_NAME @ ''")'',
     ''        SetTTFName(0x409, 4, "'' @ FONT_NAME @ ''")'',
     ''        SetTTFName(0x409, 5, "Version 1.0")'',
     '''',
     ''        # Configurar unidades'',
     ''        ScaleToEm(1000)'',
     '''',
     ''        # Iterar sobre los archivos pasados como argumentos'',
     ''        foreach($argv)'',
     ''            Open($1)'',
     ''            SelectAll()'',
     ''            Copy()'',
     ''            Close()'',
     '''',
     ''            # Obtener el nombre base del archivo (sin extensi'' @ [CHR 0xC3, CHR 0xB3] @ ''n)'',
     ''            filename = FileName($1)'',
     ''            base = FileBaseName(filename)'',
     '''',
     ''            # Obtener c'' @ [CHR 0xC3, CHR 0xB3] @ ''digo Unicode del primer car'' @ [CHR 0xC3, CHR 0xA1] @ ''cter del nombre'',
     ''            Select(CharToUnicode(substr(base, 0, 1)))'',
     ''            Paste()'',
     ''            SetWidth(600)'',
     ''            SelectNone()'',
     ''        endloop'',
     '''',
     ''        # Guardar la fuente'',
     ''        Generate("'' @ str_replace [CHR 0x5C, CHR 0x5C] ''/'' output_file @ ''")'',
     ''        Close()'',
     ''        Quit(0)'',
     ''        '']\<close>

text \<open>The f-string is these lines with a newline between each two.\<close>

definition generate_fontforge_script :: "string \<Rightarrow> string" where
  "generate_fontforge_script output_file = join [CHR 0x0A] (script_lines output_file)"

text \<open>The style sheet of \<^verbatim>\<open>modify_html\<close> (lines 263-274), an f-string as well.\<close>

definition css :: "string list \<Rightarrow> string" where
  \<open>css selected_tags = join [CHR 0x0A] [
     '''',
     ''            @font-face {'',
     ''                font-family: '' @ [CHR 0x27] @ FONT_NAME @ [CHR 0x27] @ '';'',
     ''                src: url('' @ [CHR 0x27] @ FONT_NAME @ ''.ttf'' @ [CHR 0x27] @ '') format('' @ [CHR 0x27] @ ''truetype'' @ [CHR 0x27] @ '');'',
     ''                font-weight: normal;'',
     ''                font-style: normal;'',
     ''            }'',
     '''',
     ''            '' @ join '', '' selected_tags @ '' {'',
     ''                font-family: '' @ [CHR 0x27] @ FONT_NAME @ [CHR 0x27] @ '', sans-serif;'',
     ''            }'',
     ''            '']\<close>

section \<open>Paths (\<^verbatim>\<open>posixpath\<close>)\<close>

text \<open>
  \<^verbatim>\<open>os.path\<close> on a POSIX system: the separator is the slash. Each function follows
  \<^verbatim>\<open>posixpath.py\<close>: \<^verbatim>\<open>dirname\<close> and \<^verbatim>\<open>basename\<close> cut at the last separator
  (\<^verbatim>\<open>p.rfind(sep) + 1\<close>), and \<^verbatim>\<open>dirname\<close> strips the trailing separators of a head
  that does not consist of separators only.
\<close>

definition sep :: char where
  "sep = CHR ''/''"

definition basename :: "string \<Rightarrow> string" where
  "basename p = rev (takeWhile (\<lambda>c. c \<noteq> sep) (rev p))"

definition dirname :: "string \<Rightarrow> string" where
  "dirname p =
     (let head = rev (dropWhile (\<lambda>c. c \<noteq> sep) (rev p))
      in if head \<noteq> [] \<and> head \<noteq> replicate (length head) sep
         then rev (dropWhile (\<lambda>c. c = sep) (rev head))
         else head)"

text \<open>\<^verbatim>\<open>os.path.join(a, b)\<close> with two arguments.\<close>

definition path_join :: "string \<Rightarrow> string \<Rightarrow> string" where
  "path_join a b =
     (if prefix [sep] b then b
      else if a = [] \<or> suffix [sep] a then a @ b
      else a @ [sep] @ b)"

section \<open>The world outside the program\<close>

text \<open>
  Python exceptions are values; every \<^verbatim>\<open>raise\<close> of a library call the program makes is a
  branch of the model.
\<close>

datatype error =
    FileNotFoundError
  | IsADirectoryError
  | FileExistsError
  | SameFileError
  | UnicodeDecodeError
  | OSError
  | ParserRejectedMarkup
  | AttributeError
  | TypeError

text \<open>
  The file system holds the bytes of each regular file by its path, the set of directories,
  and the names found in each directory, in the order the system lists them. Paths are
  taken literally: two different strings name two different files (no links, no
  normalisation). \<open>glob_dirs\<close> gives, for a directory pattern with wildcard characters,
  the directories that \<^verbatim>\<open>glob\<close> finds for it (the recursive part of the library, taken
  as it is). \<open>spawned\<close> records the argument vector of every process the program has
  started.
\<close>

record world =
  files :: "string \<rightharpoonup> string"
  dirs :: "string set"
  entries :: "string \<Rightarrow> string list"
  glob_dirs :: "string \<Rightarrow> string list"
  spawned :: "string list list"

text \<open>
  What the environment does to a write: nothing wrong, a failure before the file is opened
  (the call raises and the file is as it was), or a failure after the file has been opened
  for writing, when only the first \<open>n\<close> bytes have reached it (\<open>n = 0\<close>: the file is left
  empty, since opening with mode \<^verbatim>\<open>'w'\<close> truncates).
\<close>

datatype fault = NoFault | FailBefore | FailAfter nat

text \<open>
  \<^verbatim>\<open>with open(path, 'w', ...) as f: f.write(text)\<close> (lines 182-183 and 292-293).
  The result is the exception raised, if any, and the world the call leaves.
\<close>

definition write_text :: "fault \<Rightarrow> string \<Rightarrow> string \<Rightarrow> world \<Rightarrow> error option \<times> world" where
  "write_text flt path text w =
     (if path \<in> dirs w then (Some IsADirectoryError, w)
      else case flt of
        FailBefore \<Rightarrow> (Some OSError, w)
      | FailAfter n \<Rightarrow> (Some OSError, w\<lparr>files := (files w)(path \<mapsto> take n text)\<rparr>)
      | NoFault \<Rightarrow> (None, w\<lparr>files := (files w)(path \<mapsto> text)\<rparr>))"

text \<open>
  \<^verbatim>\<open>os.listdir\<close>: the names of a directory. The system never lists an empty name or a
  name with a separator in it.
\<close>

definition listdir :: "world \<Rightarrow> string \<Rightarrow> string list" where
  "listdir w d = filter (\<lambda>n. n \<noteq> [] \<and> sep \<notin> set n) (entries w d)"

text \<open>
  \<^verbatim>\<open>glob.has_magic\<close>: whether a string holds one of the wildcard characters \<^verbatim>\<open>*\<close>,
  \<^verbatim>\<open>?\<close> and \<^verbatim>\<open>[\<close>.
\<close>

definition has_magic :: "string \<Rightarrow> bool" where
  "has_magic s = list_ex (\<lambda>c. c = CHR ''*'' \<or> c = CHR ''?'' \<or> c = CHR ''['') s"

text \<open>
  \<^verbatim>\<open>glob.glob(os.path.join(folder, "*.svg"))\<close> (lines 119 and 185), as \<^verbatim>\<open>glob._iglob\<close>
  does it. The pattern is split into its directory and the name pattern \<^verbatim>\<open>*.svg\<close>. A
  directory part with a wildcard character is itself expanded to the directories that
  match it; otherwise it is read as it stands. In each of these directories the names are
  listed, the hidden ones (a leading dot) dropped because the name pattern has no leading
  dot, those kept that \<^verbatim>\<open>fnmatch\<close> matches against \<^verbatim>\<open>*.svg\<close> (on POSIX, with the case
  as it is: the names that end in \<^verbatim>\<open>.svg\<close>), and each is joined to the directory. The
  program passes the folder as the dialog gave it, without \<^verbatim>\<open>glob.escape\<close>.
\<close>

definition glob_svg :: "world \<Rightarrow> string \<Rightarrow> string list" where
  "glob_svg w folder =
     (let pattern = path_join folder ''*.svg'';
          d = dirname pattern;
          ds = (if d \<noteq> pattern \<and> has_magic d then glob_dirs w d else [d])
      in concat (map (\<lambda>dir. map (path_join dir)
           (filter (\<lambda>n. \<not> prefix ''.'' n \<and> suffix ''.svg'' n) (listdir w dir))) ds))"

section \<open>The window (class \<^verbatim>\<open>FontGeneratorApp\<close>)\<close>

text \<open>
  The lines the program appends to its console, one constructor for each f-string of the
  source (the texts are Spanish, each with a leading pictogram):
  \<^item> \<open>FolderSelected folder n\<close>: line 124, the folder and the number of SVG files;
  \<^item> \<open>NoSvgFound\<close>: line 126, no SVG file in the folder;
  \<^item> \<open>FileSelected path\<close>: line 140;
  \<^item> \<open>TagsFound n\<close>: line 155; \<open>LoadError e\<close>: line 158;
  \<^item> \<open>SelectFolderFirst\<close>: line 163; \<open>Generating\<close>: line 176;
  \<^item> \<open>FontGenerated output\<close> and \<open>NamingNote\<close>: lines 194-195;
  \<^item> \<open>GenerateError stderr\<close>: line 197; \<open>CriticalError e\<close>: line 200;
  \<^item> \<open>SelectFileFirst\<close>: line 246; \<open>SelectTagFirst\<close>: line 251;
  \<^item> \<open>FileModified path\<close>, \<open>TagsUpdated tags\<close>, \<open>UsingFont name\<close>,
    \<open>BackupCreated path\<close>: lines 295-299;
  \<^item> \<open>ModifyError e\<close>: line 302.
\<close>

datatype message =
    FolderSelected string nat
  | NoSvgFound
  | FileSelected string
  | TagsFound nat
  | LoadError error
  | SelectFolderFirst
  | Generating
  | FontGenerated string
  | NamingNote
  | GenerateError string
  | CriticalError error
  | SelectFileFirst
  | SelectTagFirst
  | FileModified string
  | TagsUpdated string
  | UsingFont string
  | BackupCreated string
  | ModifyError error

text \<open>
  The fields of the window the two pipelines read and write: the attributes set in
  \<^verbatim>\<open>__init__\<close>, the items of the list widget \<^verbatim>\<open>tags_list\<close>, whether each of the two
  buttons is enabled, and the lines of the console.
\<close>

record window =
  svg_folder :: string
  html_file :: string
  temp_dir :: string
  fontforge_path :: "string option"
  tags_list :: "string list"
  generate_btn :: bool
  modify_btn :: bool
  console :: "message list"

definition log_message :: "message \<Rightarrow> window \<Rightarrow> window" where
  "log_message m win = win\<lparr>console := console win @ [m]\<rparr>"

section \<open>The glyph pipeline (lines 116-127 and 161-200)\<close>

text \<open>
  \<^verbatim>\<open>select_svg_folder\<close>: \<open>folder\<close> is what the directory dialog returns (empty when the
  user cancels). \<^verbatim>\<open>bool(self.fontforge_path)\<close> is false for \<^verbatim>\<open>None\<close> and for the empty
  string. A folder without SVG files is reported and disables the button; the attribute
  \<^verbatim>\<open>svg_folder\<close> is assigned only in the other branch.
\<close>

definition select_svg_folder :: "string \<Rightarrow> window \<Rightarrow> world \<Rightarrow> window" where
  "select_svg_folder folder win w =
     (if folder \<noteq> [] then
        (let svg_files = glob_svg w folder in
         if svg_files \<noteq> [] then
           log_message (FolderSelected folder (length svg_files))
             (win\<lparr>svg_folder := folder,
                  generate_btn := (case fontforge_path win of None \<Rightarrow> False | Some p \<Rightarrow> p \<noteq> [])\<rparr>)
         else
           (log_message NoSvgFound win)\<lparr>generate_btn := False\<rparr>)
      else win)"

text \<open>
  What \<^verbatim>\<open>subprocess.run\<close> does with an argument vector: it raises before a process is
  started (the program is not found; the vector is not one of strings), it raises after
  the process has run (its output does not decode), or it returns the return code and the
  standard error text.
\<close>

datatype run_result = NotStarted error | RaisedAfter error | Completed int string

text \<open>
  \<^verbatim>\<open>generate_font\<close>. Its inputs from outside: \<open>output_file\<close>, the answer of the save dialog
  (empty when cancelled); \<open>flt\<close>, what happens to the write of the script; and \<open>run\<close>, the
  behaviour of \<^verbatim>\<open>subprocess.run\<close>. With \<^verbatim>\<open>fontforge_path\<close> \<^verbatim>\<open>None\<close> the argument
  list is not one of strings and \<^verbatim>\<open>subprocess.run\<close> raises \<^verbatim>\<open>TypeError\<close>. The method
  tests that a folder has been chosen and that the dialog gave a path; it lists the folder
  again, sorts the paths and passes them on, whatever their number. The script is written
  with the default encoding, taken to be UTF-8.
\<close>

definition generate_font ::
  "string \<Rightarrow> fault \<Rightarrow> (string list \<Rightarrow> run_result) \<Rightarrow> window \<Rightarrow> world \<Rightarrow> window \<times> world" where
  "generate_font output_file flt run win w =
     (if svg_folder win = [] then (log_message SelectFolderFirst win, w)
      else if output_file = [] then (win, w)
      else
        (let win1 = log_message Generating win;
             script_path = path_join (temp_dir win) ''generate_font.pe''
         in case write_text flt script_path (generate_fontforge_script output_file) w of
              (Some e, w1) \<Rightarrow> (log_message (CriticalError e) win1, w1)
            | (None, w1) \<Rightarrow>
                (let svg_files = sort (glob_svg w1 (svg_folder win))
                 in case fontforge_path win of
                      None \<Rightarrow> (log_message (CriticalError TypeError) win1, w1)
                    | Some ff \<Rightarrow>
                        (let argv = [ff, ''-script'', script_path] @ svg_files
                         in case run argv of
                              NotStarted e \<Rightarrow> (log_message (CriticalError e) win1, w1)
                            | RaisedAfter e \<Rightarrow>
                                (log_message (CriticalError e) win1,
                                 w1\<lparr>spawned := spawned w1 @ [argv]\<rparr>)
                            | Completed returncode stderr \<Rightarrow>
                                (if returncode = 0
                                 then log_message NamingNote (log_message (FontGenerated output_file) win1)
                                 else log_message (GenerateError stderr) win1,
                                 w1\<lparr>spawned := spawned w1 @ [argv]\<rparr>)))))"

text \<open>
  Line 334 connects the button to \<^verbatim>\<open>generate_font\<close>; a disabled button emits no
  \<^verbatim>\<open>clicked\<close> signal.
\<close>

definition generate_btn_clicked ::
  "string \<Rightarrow> fault \<Rightarrow> (string list \<Rightarrow> run_result) \<Rightarrow> window \<Rightarrow> world \<Rightarrow> window \<times> world" where
  "generate_btn_clicked output_file flt run win w =
     (if generate_btn win then generate_font output_file flt run win w else (win, w))"

section \<open>The parse tree (BeautifulSoup)\<close>

text \<open>
  BeautifulSoup is a library outside the repository. Its tree is modelled as it is built:
  a \<^verbatim>\<open>Tag\<close> has a name, attributes and contents; every other node (text, comment,
  doctype) is a \<^verbatim>\<open>NavigableString\<close>. The \<^verbatim>\<open>BeautifulSoup\<close> object itself is the list of
  the top-level nodes. The parser and the serialiser are parameters of the model
  (\<open>parse\<close>: \<^verbatim>\<open>BeautifulSoup(content, 'html.parser')\<close>, with \<open>None\<close> when the constructor
  raises; \<open>render\<close>: \<^verbatim>\<open>str(soup)\<close>), and so is the test whether the bytes of a file
  decode as UTF-8 (\<open>decodes\<close>).
\<close>

datatype node = Tag string "(string \<times> string) list" "node list" | NavigableString string

type_synonym soup = "node list"

record library =
  parse :: "string \<Rightarrow> soup option"
  render :: "soup \<Rightarrow> string"
  decodes :: "string \<Rightarrow> bool"

text \<open>
  \<^verbatim>\<open>soup.find_all()\<close> without arguments: every tag below the object, in document order
  (a tag before its contents).
\<close>

fun tags_of :: "node \<Rightarrow> node list" where
  "tags_of (NavigableString s) = []"
| "tags_of (Tag n a cs) = Tag n a cs # concat (map tags_of cs)"

definition find_all :: "soup \<Rightarrow> node list" where
  "find_all soup = concat (map tags_of soup)"

fun tag_name :: "node \<Rightarrow> string" where
  "tag_name (Tag n a cs) = n"
| "tag_name (NavigableString s) = []"

text \<open>
  \<^verbatim>\<open>soup.head\<close> and \<^verbatim>\<open>soup.html\<close> are \<^verbatim>\<open>soup.find('head')\<close> and
  \<^verbatim>\<open>soup.find('html')\<close>: the first tag of that name in document order, or \<^verbatim>\<open>None\<close>.
  A tag is true in a condition whatever its contents (\<^verbatim>\<open>Tag.__bool__\<close>).
\<close>

definition find_tag :: "string \<Rightarrow> soup \<Rightarrow> node option" where
  "find_tag nm soup =
     (case filter (\<lambda>t. tag_name t = nm) (find_all soup) of [] \<Rightarrow> None | t # ts \<Rightarrow> Some t)"

text \<open>
  \<^verbatim>\<open>soup.find(nm)\<close> returns a reference, and \<^verbatim>\<open>append\<close> and \<^verbatim>\<open>insert\<close> change
  the contents of the tag it refers to, in place. \<open>modify_first nm f soup\<close> is the tree after
  such a change: the contents of the first tag named \<open>nm\<close> in document order become
  \<open>f\<close> of what they were, and nothing else changes.
\<close>

fun modify_first :: "string \<Rightarrow> (node list \<Rightarrow> node list) \<Rightarrow> soup \<Rightarrow> soup" where
  "modify_first nm f [] = []"
| "modify_first nm f (NavigableString s # xs) = NavigableString s # modify_first nm f xs"
| "modify_first nm f (Tag n a cs # xs) =
     (if n = nm then Tag n a (f cs) # xs
      else if find_tag nm cs \<noteq> None then Tag n a (modify_first nm f cs) # xs
      else Tag n a cs # modify_first nm f xs)"

section \<open>The markup pipeline (lines 129-159 and 244-302)\<close>

text \<open>
  Reading in text mode translates the line ends: a carriage return (with the line feed
  that follows it, if one does) becomes a line feed.
\<close>

fun universal_newlines :: "string \<Rightarrow> string" where
  "universal_newlines [] = []"
| "universal_newlines [c] = (if c = CHR 0x0D then [CHR 0x0A] else [c])"
| "universal_newlines (c # d # cs) =
     (if c = CHR 0x0D
      then CHR 0x0A # (if d = CHR 0x0A then universal_newlines cs else universal_newlines (d # cs))
      else c # universal_newlines (d # cs))"

text \<open>
  \<^verbatim>\<open>with open(path, 'r', encoding='utf-8') as f: content = f.read()\<close> (lines 145-146 and
  257-258).
\<close>

definition read_text :: "library \<Rightarrow> world \<Rightarrow> string \<Rightarrow> error + string" where
  "read_text lib w path =
     (if path \<in> dirs w then Inl IsADirectoryError
      else case files w path of
        None \<Rightarrow> Inl FileNotFoundError
      | Some bytes \<Rightarrow>
          if decodes lib bytes then Inr (universal_newlines bytes) else Inl UnicodeDecodeError)"

text \<open>
  \<^verbatim>\<open>load_html_tags\<close>: the names of all tags, as a set, sorted, the empty name left out,
  become the items of the list widget. \<^verbatim>\<open>len(tags)\<close> in the console line counts the set.
\<close>

definition load_html_tags :: "library \<Rightarrow> window \<Rightarrow> world \<Rightarrow> window" where
  "load_html_tags lib win w =
     (let cleared = win\<lparr>tags_list := []\<rparr>
      in case read_text lib w (html_file win) of
           Inl e \<Rightarrow> (log_message (LoadError e) cleared)\<lparr>modify_btn := False\<rparr>
         | Inr content \<Rightarrow>
             (case parse lib content of
                None \<Rightarrow> (log_message (LoadError ParserRejectedMarkup) cleared)\<lparr>modify_btn := False\<rparr>
              | Some soup \<Rightarrow>
                  (let tags = remdups (map tag_name (find_all soup))
                   in log_message (TagsFound (length tags))
                        (cleared\<lparr>tags_list := filter (\<lambda>tag. length tag > 0) (sort tags),
                                 modify_btn := True\<rparr>))))"

text \<open>\<^verbatim>\<open>select_html_file\<close>: \<open>file\<close> is the answer of the file dialog.\<close>

definition select_html_file :: "library \<Rightarrow> string \<Rightarrow> window \<Rightarrow> world \<Rightarrow> window" where
  "select_html_file lib file win w =
     (if file \<noteq> [] then log_message (FileSelected file) (load_html_tags lib (win\<lparr>html_file := file\<rparr>) w)
      else win)"

text \<open>
  Lines 275-282: the style tag with the style sheet as its string goes to the end of the
  first \<^verbatim>\<open>head\<close>; without a \<^verbatim>\<open>head\<close>, a new \<^verbatim>\<open>head\<close> holding the style tag is
  inserted at index 0 of the first \<^verbatim>\<open>html\<close> tag. Without an \<^verbatim>\<open>html\<close> tag
  \<^verbatim>\<open>soup.html\<close> is \<^verbatim>\<open>None\<close> and the call of \<^verbatim>\<open>insert\<close> on it raises
  \<^verbatim>\<open>AttributeError\<close>.
\<close>

definition add_style :: "string \<Rightarrow> soup \<Rightarrow> error + soup" where
  "add_style css_text soup =
     (let style_tag = Tag ''style'' [] [NavigableString css_text]
      in if find_tag ''head'' soup \<noteq> None
         then Inr (modify_first ''head'' (\<lambda>cs. cs @ [style_tag]) soup)
         else (let head_tag = Tag ''head'' [] [style_tag]
               in if find_tag ''html'' soup = None then Inl AttributeError
                  else Inr (modify_first ''html'' (\<lambda>cs. head_tag # cs) soup)))"

text \<open>
  What the environment does to the three calls that change the file system:
  \<^verbatim>\<open>os.makedirs\<close> raises or not; the copy and the write of the document fail before the
  file is opened, after \<open>n\<close> bytes, or not at all.
\<close>

record faults =
  makedirs_fault :: bool
  copy_fault :: fault
  write_fault :: fault

text \<open>
  \<^verbatim>\<open>os.makedirs(path, exist_ok=True)\<close>: an existing directory is accepted, a regular file
  of that name is not. (The parent is the directory of the document.)
\<close>

definition makedirs :: "bool \<Rightarrow> string \<Rightarrow> world \<Rightarrow> error + world" where
  "makedirs flt path w =
     (if flt then Inl OSError
      else if files w path \<noteq> None then Inl FileExistsError
      else Inr (w\<lparr>dirs := insert path (dirs w)\<rparr>))"

text \<open>
  \<^verbatim>\<open>shutil.copy2(src, dst)\<close>: a destination that is a directory stands for the file of the
  source's base name in it; copying an existing file onto itself raises
  \<^verbatim>\<open>SameFileError\<close>; the source is opened, then the destination is opened for writing
  and filled.
\<close>

definition copy_target :: "world \<Rightarrow> string \<Rightarrow> string \<Rightarrow> string" where
  "copy_target w src dst = (if dst \<in> dirs w then path_join dst (basename src) else dst)"

definition copy2 :: "fault \<Rightarrow> string \<Rightarrow> string \<Rightarrow> world \<Rightarrow> error option \<times> world" where
  "copy2 flt src dst w =
     (let target = copy_target w src dst
      in case files w src of
           None \<Rightarrow> (Some FileNotFoundError, w)
         | Some bytes \<Rightarrow>
             if target = src then (Some SameFileError, w)
             else if target \<in> dirs w then (Some IsADirectoryError, w)
             else (case flt of
                FailBefore \<Rightarrow> (Some OSError, w)
              | FailAfter n \<Rightarrow> (Some OSError, w\<lparr>files := (files w)(target \<mapsto> take n bytes)\<rparr>)
              | NoFault \<Rightarrow> (None, w\<lparr>files := (files w)(target \<mapsto> bytes)\<rparr>)))"

text \<open>
  The body of the \<^verbatim>\<open>try\<close> statement of \<^verbatim>\<open>modify_html\<close> (lines 256-293): the exception
  raised, or the path of the backup, and the world as the body leaves it; \<open>html_path\<close>
  is \<^verbatim>\<open>self.html_file\<close>.
\<close>

definition modify_try ::
  "library \<Rightarrow> faults \<Rightarrow> string list \<Rightarrow> string \<Rightarrow> world \<Rightarrow> (error + string) \<times> world" where
  "modify_try lib flt selected_tags html_path w =
     (case read_text lib w html_path of
        Inl e \<Rightarrow> (Inl e, w)
      | Inr content \<Rightarrow>
          (case parse lib content of
             None \<Rightarrow> (Inl ParserRejectedMarkup, w)
           | Some soup \<Rightarrow>
               (case add_style (css selected_tags) soup of
                  Inl e \<Rightarrow> (Inl e, w)
                | Inr soup' \<Rightarrow>
                    (let backup_dir = path_join (dirname html_path) ''backups''
                     in case makedirs (makedirs_fault flt) backup_dir w of
                          Inl e \<Rightarrow> (Inl e, w)
                        | Inr w1 \<Rightarrow>
                            (let base_name = basename html_path;
                                 backup_file = path_join backup_dir base_name
                             in case copy2 (copy_fault flt) html_path backup_file w1 of
                                  (Some e, w2) \<Rightarrow> (Inl e, w2)
                                | (None, w2) \<Rightarrow>
                                    (case write_text (write_fault flt) html_path
                                            (render lib soup') w2 of
                                       (Some e, w3) \<Rightarrow> (Inl e, w3)
                                     | (None, w3) \<Rightarrow> (Inr backup_file, w3)))))))"

text \<open>
  \<^verbatim>\<open>modify_html\<close>: \<open>selected_tags\<close> is the text of the selected items of the list
  widget. The two tests before the \<^verbatim>\<open>try\<close> statement return after a console line; an
  exception of the body is caught and reported.
\<close>

definition modify_html ::
  "library \<Rightarrow> faults \<Rightarrow> string list \<Rightarrow> window \<Rightarrow> world \<Rightarrow> window \<times> world" where
  "modify_html lib flt selected_tags win w =
     (if html_file win = [] then (log_message SelectFileFirst win, w)
      else if selected_tags = [] then (log_message SelectTagFirst win, w)
      else case modify_try lib flt selected_tags (html_file win) w of
             (Inl e, w') \<Rightarrow> (log_message (ModifyError e) win, w')
           | (Inr backup_file, w') \<Rightarrow>
               (let win1 = log_message (UsingFont FONT_NAME)
                             (log_message (TagsUpdated (join '', '' selected_tags))
                                (log_message (FileModified (html_file win)) win))
                in (if backup_file \<noteq> [] then log_message (BackupCreated backup_file) win1
                    else win1, w')))"

section \<open>The parser (\<^verbatim>\<open>html.parser\<close> under BeautifulSoup)\<close>

text \<open>
  \<^verbatim>\<open>BeautifulSoup(content, 'html.parser')\<close> runs the standard library's
  \<^verbatim>\<open>HTMLParser\<close> over the text and builds the tree from the calls it receives. What the
  scanner finds in a text is, in order: a start tag with its name as it stands in the text
  and its attributes, a start tag closed in itself (\<^verbatim>\<open><name ... />\<close>), an end tag, or a
  string that BeautifulSoup adds to the tree as one object (a text, a comment, a
  declaration).
\<close>

datatype event =
    StartTag string "(string \<times> string) list"
  | StartEndTag string "(string \<times> string) list"
  | EndTag string
  | Str string

text \<open>
  The parts of the two libraries the model takes as they are: the scanner on the texts
  the model does not scan itself (\<open>None\<close>: the constructor raises), Python's
  \<^verbatim>\<open>str.lower\<close> on names with characters outside ASCII, and which names BeautifulSoup
  holds to be empty elements (\<^verbatim>\<open>br\<close>, \<^verbatim>\<open>img\<close> and so on).
\<close>

record html_parser =
  scan :: "string \<Rightarrow> event list option"
  unicode_lower :: "string \<Rightarrow> string"
  is_void :: "string \<Rightarrow> bool"

definition is_upper :: "char \<Rightarrow> bool" where
  "is_upper c = (CHR ''A'' \<le> c \<and> c \<le> CHR ''Z'')"

definition is_lower :: "char \<Rightarrow> bool" where
  "is_lower c = (CHR ''a'' \<le> c \<and> c \<le> CHR ''z'')"

definition is_digit :: "char \<Rightarrow> bool" where
  "is_digit c = (CHR ''0'' \<le> c \<and> c \<le> CHR ''9'')"

definition is_ascii :: "char \<Rightarrow> bool" where
  "is_ascii c = (of_char c < (128 :: nat))"

definition ascii_lower :: "char \<Rightarrow> char" where
  "ascii_lower c = (if is_upper c then char_of (of_char c + (32 :: nat)) else c)"

text \<open>
  \<^verbatim>\<open>name.lower()\<close>. In a name of ASCII characters each upper-case letter becomes the
  lower-case one. For any other name the result is Python's; it holds no upper-case ASCII
  letter, which the model writes out.
\<close>

definition str_lower :: "(string \<Rightarrow> string) \<Rightarrow> string \<Rightarrow> string" where
  "str_lower ul s = map ascii_lower (if list_all is_ascii s then s else ul s)"

text \<open>
  The scanner on the simplest texts, which the model reads itself: a text that is nothing
  but start tags \<^verbatim>\<open><name>\<close> and end tags \<^verbatim>\<open></name>\<close>, each name a letter followed by
  letters and digits. (In \<^verbatim>\<open>HTMLParser.goahead\<close>, \<^verbatim>\<open>parse_starttag\<close> and
  \<^verbatim>\<open>parse_endtag\<close> such a tag is matched whole and reported with its name.) Start tags
  of the elements whose content html.parser, in one version or another, does not scan for
  tags are left to the library.
\<close>

definition raw_text_names :: "string list" where
  "raw_text_names = [''script'', ''style'', ''textarea'', ''title'', ''plaintext'', ''xmp'',
     ''iframe'', ''noembed'', ''noframes'', ''noscript'']"

function scan_tags :: "string \<Rightarrow> event list option" where
  "scan_tags text =
     (case text of
        [] \<Rightarrow> Some []
      | c # cs \<Rightarrow>
          if c \<noteq> CHR ''<'' then None
          else (let closing = prefix ''/'' cs;
                    body = (if closing then tl cs else cs);
                    nm = takeWhile (\<lambda>c. is_upper c \<or> is_lower c \<or> is_digit c) body;
                    rest = dropWhile (\<lambda>c. is_upper c \<or> is_lower c \<or> is_digit c) body
                in if nm = [] \<or> is_digit (hd nm) \<or> \<not> prefix ''>'' rest
                      \<or> (\<not> closing \<and> map ascii_lower nm \<in> set raw_text_names)
                   then None
                   else map_option ((#) (if closing then EndTag nm else StartTag nm []))
                          (scan_tags (tl rest))))"
  by pat_completeness auto
termination
proof (relation "measure length")
  show "wf (measure length)" by simp
next
  fix t :: string and c cs closing body nm rest
  assume "t = c # cs" and "body = (if closing then tl cs else cs)"
    and "rest = dropWhile (\<lambda>c. is_upper c \<or> is_lower c \<or> is_digit c) body"
  moreover have "length (tl (dropWhile P xs)) \<le> length xs" for P and xs :: string
    by (simp add: le_diff_conv length_dropWhile_le le_SucI)
  moreover have "length (tl xs) \<le> length xs" for xs :: string by simp
  ultimately have "length (tl rest) \<le> length cs"
    by (metis order_trans)
  then show "(tl rest, t) \<in> measure length" using \<open>t = c # cs\<close> by simp
qed

text \<open>
  What the scanner finds in a text, with the names as they stand in it: the model's own
  reading where it has one, the library's otherwise.
\<close>

definition scan_events :: "html_parser \<Rightarrow> string \<Rightarrow> event list option" where
  "scan_events p text = (case scan_tags text of Some evs \<Rightarrow> Some evs | None \<Rightarrow> scan p text)"

text \<open>
  \<^verbatim>\<open>parse_starttag\<close> and \<^verbatim>\<open>parse_endtag\<close> lower-case the name they have matched
  (\<^verbatim>\<open>match.group(1).lower()\<close>) before they call the handler.
\<close>

fun lower_event :: "(string \<Rightarrow> string) \<Rightarrow> event \<Rightarrow> event" where
  "lower_event ul (StartTag nm attrs) = StartTag (str_lower ul nm) attrs"
| "lower_event ul (StartEndTag nm attrs) = StartEndTag (str_lower ul nm) attrs"
| "lower_event ul (EndTag nm) = EndTag (str_lower ul nm)"
| "lower_event ul (Str s) = Str s"

definition html_events :: "html_parser \<Rightarrow> string \<Rightarrow> event list option" where
  "html_events p text = map_option (map (lower_event (unicode_lower p))) (scan_events p text)"

text \<open>
  The tree builder. The open tags form a stack, innermost first, each with its name, its
  attributes and the contents it has so far; \<open>root\<close> is the contents of the
  \<^verbatim>\<open>BeautifulSoup\<close> object so far. (BeautifulSoup puts a tag into its parent when it is
  opened and fills it afterwards; here it is put there when it is closed, at the same
  place, since an open tag's parent receives nothing while the tag is open.)
\<close>

type_synonym frame = "string \<times> (string \<times> string) list \<times> node list"

fun append_child :: "node \<Rightarrow> frame list \<Rightarrow> node list \<Rightarrow> frame list \<times> node list" where
  "append_child x [] root = ([], root @ [x])"
| "append_child x ((n, a, cs) # fs) root = ((n, a, cs @ [x]) # fs, root)"

text \<open>
  \<^verbatim>\<open>BeautifulSoup._popToTag(name)\<close>: if a tag of that name is open, the open tags are
  closed from the innermost up to and including the innermost of that name; if none is
  open, nothing happens.
\<close>

fun pop_to_tag :: "string \<Rightarrow> frame list \<Rightarrow> node list \<Rightarrow> frame list \<times> node list" where
  "pop_to_tag nm [] root = ([], root)"
| "pop_to_tag nm [(n, a, cs)] root =
     (if n = nm then ([], root @ [Tag n a cs]) else ([(n, a, cs)], root))"
| "pop_to_tag nm ((n, a, cs) # (n', a', cs') # fs) root =
     (if n = nm then ((n', a', cs' @ [Tag n a cs]) # fs, root)
      else if nm \<in> fst ` set ((n', a', cs') # fs)
           then pop_to_tag nm ((n', a', cs' @ [Tag n a cs]) # fs) root
           else ((n, a, cs) # (n', a', cs') # fs, root))"

text \<open>
  \<^verbatim>\<open>BeautifulSoupHTMLParser.handle_endtag\<close>: an end tag whose name is on the list of the
  empty elements already closed is struck off that list; any other goes to
  \<^verbatim>\<open>_popToTag\<close>.
\<close>

fun end_tag :: "string \<Rightarrow> frame list \<times> node list \<times> string list \<Rightarrow> frame list \<times> node list \<times> string list" where
  "end_tag nm (fs, root, closed) =
     (if nm \<in> set closed then (fs, root, remove1 nm closed)
      else (case pop_to_tag nm fs root of (fs', root') \<Rightarrow> (fs', root', closed)))"

text \<open>
  One call of a handler. \<^verbatim>\<open>handle_starttag\<close> opens the tag and, for an empty element,
  closes it at once and notes its name; \<^verbatim>\<open>handle_startendtag\<close> opens the tag and calls
  \<^verbatim>\<open>handle_endtag\<close>; a string goes to the contents of the innermost open tag.
\<close>

fun feed :: "(string \<Rightarrow> bool) \<Rightarrow> frame list \<times> node list \<times> string list \<Rightarrow> event
    \<Rightarrow> frame list \<times> node list \<times> string list" where
  "feed void (fs, root, closed) (StartTag nm attrs) =
     (if void nm
      then (case pop_to_tag nm ((nm, attrs, []) # fs) root of
              (fs', root') \<Rightarrow> (fs', root', closed @ [nm]))
      else ((nm, attrs, []) # fs, root, closed))"
| "feed void (fs, root, closed) (StartEndTag nm attrs) =
     end_tag nm ((nm, attrs, []) # fs, root, closed)"
| "feed void (fs, root, closed) (EndTag nm) = end_tag nm (fs, root, closed)"
| "feed void (fs, root, closed) (Str s) =
     (case append_child (NavigableString s) fs root of (fs', root') \<Rightarrow> (fs', root', closed))"

text \<open>At the end of the text every tag still open is closed.\<close>

fun close_all :: "frame list \<Rightarrow> node list \<Rightarrow> node list" where
  "close_all [] root = root"
| "close_all [(n, a, cs)] root = root @ [Tag n a cs]"
| "close_all ((n, a, cs) # (n', a', cs') # fs) root =
     close_all ((n', a', cs' @ [Tag n a cs]) # fs) root"

definition build :: "(string \<Rightarrow> bool) \<Rightarrow> event list \<Rightarrow> soup" where
  "build void evs =
     (case foldl (feed void) ([], [], []) evs of (fs, root, closed) \<Rightarrow> close_all fs root)"

definition bs4_parse :: "html_parser \<Rightarrow> string \<Rightarrow> soup option" where
  "bs4_parse p text = map_option (build (is_void p)) (html_events p text)"

text \<open>
  Which bytes the codec \<^verbatim>\<open>utf-8\<close> decodes: a sequence of well-formed codes of one to
  four bytes (no overlong form, no surrogate, nothing above U+10FFFF). \<open>utf8_code_len\<close>
  is the length of the code a text starts with, or zero.
\<close>

definition in_bytes :: "nat \<Rightarrow> nat \<Rightarrow> char \<Rightarrow> bool" where
  "in_bytes lo hi c = (lo \<le> of_char c \<and> of_char c \<le> hi)"

definition utf8_code_len :: "string \<Rightarrow> nat" where
  "utf8_code_len s =
     (case s of
        [] \<Rightarrow> 0
      | a # r \<Rightarrow>
          if in_bytes 0x00 0x7F a then 1
          else if in_bytes 0xC2 0xDF a then
            (case r of
               b # r' \<Rightarrow> if in_bytes 0x80 0xBF b then 2 else 0
             | [] \<Rightarrow> 0)
          else if in_bytes 0xE0 0xEF a then
            (case r of
               b # c # r' \<Rightarrow>
                 if in_bytes (if a = CHR 0xE0 then 0xA0 else 0x80)
                      (if a = CHR 0xED then 0x9F else 0xBF) b
                    \<and> in_bytes 0x80 0xBF c
                 then 3 else 0
             | _ \<Rightarrow> 0)
          else if in_bytes 0xF0 0xF4 a then
            (case r of
               b # c # d # r' \<Rightarrow>
                 if in_bytes (if a = CHR 0xF0 then 0x90 else 0x80)
                      (if a = CHR 0xF4 then 0x8F else 0xBF) b
                    \<and> in_bytes 0x80 0xBF c \<and> in_bytes 0x80 0xBF d
                 then 4 else 0
             | _ \<Rightarrow> 0)
          else 0)"

function utf8_valid :: "string \<Rightarrow> bool" where
  "utf8_valid s =
     (if s = [] then True
      else if utf8_code_len s = 0 then False
      else utf8_valid (drop (utf8_code_len s) s))"
  by pat_completeness auto
termination
  by (relation "measure length") auto

text \<open>
  The library with this parser and this codec (both calls of \<^verbatim>\<open>open\<close> name
  \<^verbatim>\<open>encoding='utf-8'\<close>); the serialiser stays as it is given.
\<close>

definition bs4_library :: "html_parser \<Rightarrow> (soup \<Rightarrow> string) \<Rightarrow> library" where
  "bs4_library p r = \<lparr>parse = bs4_parse p, render = r, decodes = utf8_valid\<rparr>"

text \<open>The names of the start tags among events, in order.\<close>

fun start_names :: "event list \<Rightarrow> string list" where
  "start_names [] = []"
| "start_names (StartTag nm attrs # evs) = nm # start_names evs"
| "start_names (StartEndTag nm attrs # evs) = nm # start_names evs"
| "start_names (EndTag nm # evs) = start_names evs"
| "start_names (Str s # evs) = start_names evs"

section \<open>Reading the script\<close>

text \<open>The lines of a text: \<^verbatim>\<open>text.split('\\n')\<close>.\<close>

fun lines_of :: "string \<Rightarrow> string list" where
  "lines_of [] = [[]]"
| "lines_of (c # cs) =
     (if c = CHR 0x0A then [] # lines_of cs
      else (case lines_of cs of [] \<Rightarrow> [[c]] | l # ls \<Rightarrow> (c # l) # ls))"

text \<open>
  The directives of a script text: its lines without their indentation, the empty lines
  and the comment lines (a leading \<^verbatim>\<open>#\<close>) left out.
\<close>

definition directives :: "string \<Rightarrow> string list" where
  "directives text =
     filter (\<lambda>l. l \<noteq> [] \<and> \<not> prefix ''#'' l)
       (map (dropWhile (\<lambda>c. c = CHR '' '')) (lines_of text))"

text \<open>
  The directives of lines 3 to 32 of the f-string, which do not depend on the output path:
  the font set-up and the loop over the arguments.
\<close>

definition setup_and_loop :: "string list" where
  \<open>setup_and_loop = [''New()'',
      ''SetFontNames("MyCustomFont", "MyCustomFont", "MyCustomFont", "Regular")'',
      ''SetTTFName(0x409, 1, "MyCustomFont")'',
      ''SetTTFName(0x409, 2, "Regular")'',
      ''SetTTFName(0x409, 3, "MyCustomFont")'',
      ''SetTTFName(0x409, 4, "MyCustomFont")'',
      ''SetTTFName(0x409, 5, "Version 1.0")'',
      ''ScaleToEm(1000)'',
      ''foreach($argv)'',
      ''Open($1)'', ''SelectAll()'', ''Copy()'', ''Close()'',
      ''filename = FileName($1)'', ''base = FileBaseName(filename)'',
      ''Select(CharToUnicode(substr(base, 0, 1)))'',
      ''Paste()'', ''SetWidth(600)'', ''SelectNone()'',
      ''endloop'']\<close>

text \<open>
  The script before and after the output path: the first 34 lines and the opening of the
  \<^verbatim>\<open>Generate\<close> directive, and its closing with the last three lines.
\<close>

definition script_before :: string where
  \<open>script_before =
     join [CHR 0x0A] (take 34 (script_lines [])) @ [CHR 0x0A] @ ''        Generate("''\<close>

definition script_after :: string where
  \<open>script_after = ''")'' @ [CHR 0x0A] @ join [CHR 0x0A] (drop 35 (script_lines []))\<close>

text \<open>What \<^verbatim>\<open>os.path.join\<close> puts before a name that does not start with a separator.\<close>

definition dir_prefix :: "string \<Rightarrow> string" where
  "dir_prefix d = (if d = [] \<or> suffix [sep] d then d else d @ [sep])"

text \<open>
  The glyph files of a folder: the names in it that are not hidden and end in
  \<^verbatim>\<open>.svg\<close>.
\<close>

definition svg_names :: "world \<Rightarrow> string \<Rightarrow> string list" where
  "svg_names w folder =
     filter (\<lambda>n. \<not> prefix ''.'' n \<and> suffix ''.svg'' n)
       (listdir w (dirname (path_join folder ''*.svg'')))"

section \<open>Reading the tree\<close>

text \<open>The names of the tags of a tree, in document order, with repetitions.\<close>

definition tag_names :: "soup \<Rightarrow> string list" where
  "tag_names soup = map tag_name (find_all soup)"

text \<open>
  A serialiser and a parser for the examples: tags are written without their attributes,
  and a text is parsed by looking it up among the serialisations of the given trees.
\<close>

text \<open>
  The names of the tags the builder holds while it works: each open tag and the tags in
  the contents it has so far.
\<close>

fun open_names :: "frame list \<Rightarrow> string list" where
  "open_names [] = []"
| "open_names ((n, a, cs) # fs) = n # tag_names cs @ open_names fs"

fun render_node :: "node \<Rightarrow> string" where
  "render_node (NavigableString s) = s"
| "render_node (Tag n a cs) =
     ''<'' @ n @ ''>'' @ concat (map render_node cs) @ ''</'' @ n @ ''>''"

definition render_plain :: "soup \<Rightarrow> string" where
  "render_plain soup = concat (map render_node soup)"

definition table_library :: "soup list \<Rightarrow> library" where
  "table_library trees =
     \<lparr>parse = (\<lambda>s. List.find (\<lambda>t. render_plain t = s) trees),
      render = render_plain,
      decodes = (\<lambda>bytes. True)\<rparr>"

text \<open>
  Where \<^verbatim>\<open>modify_html\<close> puts the backup of the document at \<open>path\<close>: the file of the
  document's base name in the directory \<^verbatim>\<open>backups\<close> beside it (or, should that path
  be a directory, the file of that name in it, as \<^verbatim>\<open>shutil.copy2\<close> has it).
\<close>

definition backup_dir_of :: "string \<Rightarrow> string" where
  "backup_dir_of path = path_join (dirname path) ''backups''"

definition backup_path :: "world \<Rightarrow> string \<Rightarrow> string" where
  "backup_path w path =
     copy_target (w\<lparr>dirs := insert (backup_dir_of path) (dirs w)\<rparr>) path
       (path_join (backup_dir_of path) (basename path))"

text \<open>The style tag that \<^verbatim>\<open>modify_html\<close> builds for a selection (lines 263-276).\<close>

definition style_tag_of :: "string list \<Rightarrow> node" where
  "style_tag_of selected_tags = Tag ''style'' [] [NavigableString (css selected_tags)]"

section \<open>Examples\<close>

text \<open>
  The window as \<^verbatim>\<open>__init__\<close> leaves it on a system where FontForge is installed, a
  file system whose directory \<^verbatim>\<open>/g\<close> lists the given names, and a FontForge run that
  ends with return code 0.
\<close>

definition window0 :: window where
  "window0 = \<lparr>svg_folder = [], html_file = [], temp_dir = ''/tmp/fg'',
     fontforge_path = Some ''/usr/bin/fontforge'', tags_list = [],
     generate_btn = False, modify_btn = False, console = []\<rparr>"

definition glyph_world :: "string list \<Rightarrow> world" where
  "glyph_world names = \<lparr>files = Map.empty, dirs = {''/g'', ''/tmp/fg''},
     entries = (\<lambda>d. if d = ''/g'' then names else []), glob_dirs = (\<lambda>d. []),
     spawned = []\<rparr>"

definition run_ok :: "string list \<Rightarrow> run_result" where
  "run_ok argv = Completed 0 []"


text \<open>The window once the folder \<^verbatim>\<open>/g\<close> has been chosen.\<close>

definition window1 :: window where
  "window1 = window0\<lparr>svg_folder := ''/g'', generate_btn := True\<rparr>"

text \<open>
  Three documents: the one of the scenario (no \<^verbatim>\<open>head\<close>), one with a \<^verbatim>\<open>head\<close>, and a
  fragment with neither \<^verbatim>\<open>head\<close> nor \<^verbatim>\<open>html\<close>; a file system that holds one of
  them as \<^verbatim>\<open>/site/index.html\<close>; the window with that file chosen; and an environment
  in which no call fails.
\<close>

definition doc_tree :: soup where
  "doc_tree = [Tag ''html'' [] [Tag ''body'' [] [Tag ''div'' [] [Tag ''p'' [] []]]]]"

definition head_tree :: soup where
  "head_tree = [Tag ''html'' []
     [Tag ''head'' [] [Tag ''title'' [] [NavigableString ''t'']], Tag ''body'' [] [Tag ''p'' [] []]]]"

definition fragment_tree :: soup where
  "fragment_tree = [Tag ''p'' [] [NavigableString ''hi'']]"

definition site_world :: "soup \<Rightarrow> world" where
  "site_world t = \<lparr>files = [''/site/index.html'' \<mapsto> render_plain t], dirs = {''/site''},
     entries = (\<lambda>d. []), glob_dirs = (\<lambda>d. []), spawned = []\<rparr>"

definition site_window :: window where
  "site_window = window0\<lparr>html_file := ''/site/index.html''\<rparr>"

definition no_faults :: faults where
  "no_faults = \<lparr>makedirs_fault = False, copy_fault = NoFault, write_fault = NoFault\<rparr>"

text \<open>
  A parser for the examples: the scanner left to the library refuses every text, names
  outside ASCII are left as they are, and the empty elements are those of BeautifulSoup's
  \<^verbatim>\<open>HTMLTreeBuilder\<close>. A file system that holds a given text as
  \<^verbatim>\<open>/site/index.html\<close>.
\<close>

definition void_names :: "string list" where
  "void_names = [''area'', ''base'', ''br'', ''col'', ''embed'', ''hr'', ''img'', ''input'',
     ''keygen'', ''link'', ''menuitem'', ''meta'', ''param'', ''source'', ''track'', ''wbr'',
     ''basefont'', ''bgsound'', ''command'', ''frame'', ''image'', ''isindex'', ''nextid'',
     ''spacer'']"

definition parser0 :: html_parser where
  "parser0 = \<lparr>scan = (\<lambda>t. None), unicode_lower = (\<lambda>s. s),
     is_void = (\<lambda>n. n \<in> set void_names)\<rparr>"

definition text_world :: "string \<Rightarrow> world" where
  "text_world t = \<lparr>files = [''/site/index.html'' \<mapsto> t], dirs = {''/site''},
     entries = (\<lambda>d. []), glob_dirs = (\<lambda>d. []), spawned = []\<rparr>"
section \<open>Lemmas on paths and on the listing\<close>

lemma append_le_append: "(p @ a \<le> p @ b) = (a \<le> (b :: 'a :: linorder list))"
  by (induction p) simp_all

lemma sorted_map_append: "sorted (map ((@) p) xs) = sorted (xs :: 'a :: linorder list list)"
  by (induction xs) (auto simp: append_le_append)

lemma basename_append:
  assumes "sep \<notin> set n" and "p = [] \<or> suffix [sep] p"
  shows "basename (p @ n) = n"
proof -
  have a: "takeWhile (\<lambda>c. c \<noteq> sep) (rev n @ ys) = rev n @ takeWhile (\<lambda>c. c \<noteq> sep) ys" for ys
    using assms(1) by (intro takeWhile_append2) auto
  from assms(2) show ?thesis
  proof
    assume p: "p = []"
    have tw: "takeWhile (\<lambda>c. c \<noteq> sep) (rev n) = rev n"
      using assms(1) by (auto simp: takeWhile_eq_all_conv)
    show ?thesis unfolding basename_def p by (simp only: append_Nil tw rev_rev_ident)
  next
    assume "suffix [sep] p"
    then obtain zs where "p = zs @ [sep]" by (auto simp: suffix_def)
    then show ?thesis using a[of "sep # rev zs"] by (simp add: basename_def)
  qed
qed

lemma path_join_name:
  "sep \<notin> set n \<Longrightarrow> n \<noteq> [] \<Longrightarrow> path_join d n = dir_prefix d @ n"
  by (cases n) (auto simp: path_join_def dir_prefix_def)

lemma dir_prefix_ends: "dir_prefix d = [] \<or> suffix [sep] (dir_prefix d)"
  by (auto simp: dir_prefix_def suffix_def)

lemma set_dirname: "set (dirname p) \<subseteq> set p"
  by (auto simp: dirname_def Let_def dest!: set_dropWhileD)

lemma dirname_append_name: "sep \<notin> set n \<Longrightarrow> dirname (P @ n) = dirname P"
proof -
  assume "sep \<notin> set n"
  then have "dropWhile (\<lambda>c. c \<noteq> sep) (rev n @ rev P) = dropWhile (\<lambda>c. c \<noteq> sep) (rev P)"
    by (intro dropWhile_append2) auto
  then show ?thesis by (simp add: dirname_def)
qed

lemma has_magic_pattern_dir:
  assumes "\<not> has_magic folder"
  shows "\<not> has_magic (dirname (path_join folder ''*.svg''))"
proof -
  have s: "sep \<notin> set ''*.svg''" by (simp add: sep_def)
  have "path_join folder ''*.svg'' = dir_prefix folder @ ''*.svg''"
    using s by (rule path_join_name) simp
  then have "dirname (path_join folder ''*.svg'') = dirname (dir_prefix folder)"
    using dirname_append_name[OF s, of "dir_prefix folder"] by simp
  then have "set (dirname (path_join folder ''*.svg'')) \<subseteq> set (dir_prefix folder)"
    using set_dirname[of "dir_prefix folder"] by simp
  also have "\<dots> \<subseteq> insert sep (set folder)" by (auto simp: dir_prefix_def)
  finally show ?thesis using assms by (auto simp: has_magic_def list_ex_iff sep_def)
qed

lemma listdir_names: "n \<in> set (listdir w d) \<Longrightarrow> sep \<notin> set n \<and> n \<noteq> [] \<and> n \<in> set (entries w d)"
  by (auto simp: listdir_def)

lemma glob_svg_eq:
  assumes "\<not> has_magic folder"
  shows "glob_svg w folder =
     map ((@) (dir_prefix (dirname (path_join folder ''*.svg'')))) (svg_names w folder)"
proof -
  have "path_join d n = dir_prefix d @ n" if "n \<in> set (listdir w d)" for n d
    using listdir_names[OF that] by (simp add: path_join_name)
  then have "map (path_join d) (filter P (listdir w d)) = map ((@) (dir_prefix d)) (filter P (listdir w d))"
    for d P by (intro map_cong[OF refl]) auto
  then show ?thesis
    using has_magic_pattern_dir[OF assms] by (simp add: glob_svg_def Let_def svg_names_def)
qed

lemma glob_svg_empty:
  "\<not> has_magic folder \<Longrightarrow> (glob_svg w folder = []) = (svg_names w folder = [])"
  by (simp add: glob_svg_eq)

lemma sorted_basename_prefixed:
  assumes "sorted xs" and "\<forall>x \<in> set xs. \<exists>n. x = P @ n \<and> sep \<notin> set n"
    and "P = [] \<or> suffix [sep] P"
  shows "sorted (map basename xs)"
proof -
  have "basename x = drop (length P) x" if "x \<in> set xs" for x
  proof -
    from assms(2) that obtain n where n: "x = P @ n" "sep \<notin> set n" by blast
    show ?thesis unfolding n(1) using basename_append[OF n(2) assms(3)] by simp
  qed
  then have e1: "map basename xs = map (drop (length P)) xs"
    by (intro map_cong[OF refl])
  have "drop (length P) x = drop (length P) x \<and> P @ drop (length P) x = x" if "x \<in> set xs" for x
    using assms(2) that by auto
  then have "map ((@) P) (map (drop (length P)) xs) = xs"
    by (auto intro!: map_idI)
  then have "sorted (map ((@) P) (map (drop (length P)) xs))"
    using assms(1) by (simp only:)
  then have "sorted (map (drop (length P)) xs)"
    unfolding sorted_map_append .
  then show ?thesis unfolding e1 .
qed

lemma sorted_basename_sort_glob:
  assumes "\<not> has_magic folder"
  shows "sorted (map basename (sort (glob_svg w folder)))"
proof (rule sorted_basename_prefixed)
  show "sorted (sort (glob_svg w folder))" by simp
  show "\<forall>x\<in>set (sort (glob_svg w folder)).
       \<exists>n. x = dir_prefix (dirname (path_join folder ''*.svg'')) @ n \<and> sep \<notin> set n"
    by (auto simp: glob_svg_eq[OF assms] svg_names_def listdir_def)
  show "dir_prefix (dirname (path_join folder ''*.svg'')) = [] \<or>
    suffix [sep] (dir_prefix (dirname (path_join folder ''*.svg'')))"
    by (rule dir_prefix_ends)
qed



lemma glob_svg_entries:
  "entries w1 = entries w \<Longrightarrow> glob_dirs w1 = glob_dirs w \<Longrightarrow> glob_svg w1 folder = glob_svg w folder"
  by (simp add: glob_svg_def listdir_def Let_def)

lemma write_text_entries: "entries (snd (write_text flt path text w)) = entries w"
  by (simp add: write_text_def split: fault.splits)

lemma write_text_glob_dirs: "glob_dirs (snd (write_text flt path text w)) = glob_dirs w"
  by (simp add: write_text_def split: fault.splits)

lemma write_text_spawned: "spawned (snd (write_text flt path text w)) = spawned w"
  by (simp add: write_text_def split: fault.splits)

lemma write_text_keeps:
  assumes "write_text flt path text w = (r, w1)"
  shows "(\<forall>folder. glob_svg w1 folder = glob_svg w folder) \<and> spawned w1 = spawned w"
proof -
  have "w1 = snd (write_text flt path text w)" using assms by simp
  then show ?thesis
    using glob_svg_entries[OF write_text_entries write_text_glob_dirs] write_text_spawned by simp
qed

section \<open>Lemmas on texts and on the script\<close>

lemma script_split:
  "generate_fontforge_script output_file =
     script_before @ str_replace [CHR 0x5C, CHR 0x5C] ''/'' output_file @ script_after"
  by (simp add: generate_fontforge_script_def script_lines_def script_before_def script_after_def)

lemma lines_of_line: "CHR 0x0A \<notin> set l \<Longrightarrow> lines_of l = [l]"
  by (induction l) auto

lemma lines_of_append:
  "CHR 0x0A \<notin> set l \<Longrightarrow> lines_of (l @ CHR 0x0A # r) = l # lines_of r"
  by (induction l) auto

lemma lines_of_join_append:
  "\<forall>l \<in> set ls. CHR 0x0A \<notin> set l \<Longrightarrow> rest \<noteq> [] \<Longrightarrow>
   lines_of (join [CHR 0x0A] (ls @ rest)) = ls @ lines_of (join [CHR 0x0A] rest)"
proof (induction ls)
  case Nil
  then show ?case by simp
next
  case (Cons l ls)
  then obtain y ys where e: "ls @ rest = y # ys" by (cases "ls @ rest") auto
  have "lines_of (join [CHR 0x0A] (l # ls @ rest)) = l # lines_of (join [CHR 0x0A] (ls @ rest))"
    unfolding e using Cons.prems(1) by (simp add: lines_of_append)
  then show ?case using Cons by simp
qed

lemma lines_of_join:
  assumes "\<forall>l \<in> set ls. CHR 0x0A \<notin> set l" and "ls \<noteq> []"
  shows "lines_of (join [CHR 0x0A] ls) = ls"
proof -
  have b: "\<forall>l \<in> set (butlast ls). CHR 0x0A \<notin> set l" using assms(1) by (auto dest: in_set_butlastD)
  have l: "CHR 0x0A \<notin> set (last ls)" using assms by simp
  have "lines_of (join [CHR 0x0A] (butlast ls @ [last ls])) = butlast ls @ lines_of (join [CHR 0x0A] [last ls])"
    using b by (rule lines_of_join_append) simp
  then show ?thesis using assms(2) l by (simp add: lines_of_line)
qed

lemma set_str_replace: "set (str_replace old new s) \<subseteq> set s \<union> set new"
proof (induction old new s rule: str_replace.induct)
  case (1 old new)
  then show ?case by simp
next
  case (2 old new c cs)
  show ?case
  proof (cases "old \<noteq> [] \<and> prefix old (c # cs)")
    case True
    then have "set (str_replace old new (drop (length old - 1) cs)) \<subseteq> set (drop (length old - 1) cs) \<union> set new"
      using 2(1) by simp
    moreover have "set (drop (length old - 1) cs) \<subseteq> set cs" by (rule set_drop_subset)
    ultimately show ?thesis using True by auto
  next
    case False
    then show ?thesis using 2(2) by auto
  qed
qed

lemma script_lines_split:
  "script_lines output_file = take 34 (script_lines []) @ drop 34 (script_lines output_file)"
  by (simp add: script_lines_def)

lemma script_head_lines: "\<forall>l \<in> set (take 34 (script_lines [])). CHR 0x0A \<notin> set l"
  by (simp add: script_lines_def FONT_NAME_def)

lemma script_head_directives:
  "filter (\<lambda>l. l \<noteq> [] \<and> \<not> prefix ''#'' l)
       (map (dropWhile (\<lambda>c. c = CHR '' '')) (take 34 (script_lines []))) = setup_and_loop"
  by (simp add: script_lines_def FONT_NAME_def setup_and_loop_def)

lemma directives_start:
  "\<exists>rest. directives (generate_fontforge_script output_file) = setup_and_loop @ rest"
proof -
  have "drop 34 (script_lines output_file) \<noteq> []" by (simp add: script_lines_def)
  then have "lines_of (generate_fontforge_script output_file) =
      take 34 (script_lines []) @ lines_of (join [CHR 0x0A] (drop 34 (script_lines output_file)))"
    unfolding generate_fontforge_script_def
    by (subst script_lines_split) (rule lines_of_join_append[OF script_head_lines])
  then show ?thesis
    unfolding directives_def by (simp only: map_append filter_append script_head_directives) blast
qed

lemma directives_eq:
  assumes "CHR 0x0A \<notin> set output_file"
  shows "directives (generate_fontforge_script output_file) =
     setup_and_loop @
     [''Generate(\"'' @ str_replace [CHR 0x5C, CHR 0x5C] ''/'' output_file @ ''\")'',
      ''Close()'', ''Quit(0)'']"
proof -
  have n: "CHR 0x0A \<notin> set (str_replace [CHR 0x5C, CHR 0x5C] ''/'' output_file)"
    using set_str_replace[of "[CHR 0x5C, CHR 0x5C]" "''/''" output_file] assms by auto
  have t: "drop 34 (script_lines output_file) =
     [''        Generate(\"'' @ str_replace [CHR 0x5C, CHR 0x5C] ''/'' output_file @ ''\")'',
      ''        Close()'', ''        Quit(0)'', ''        '']"
    by (simp add: script_lines_def)
  have "lines_of (generate_fontforge_script output_file) =
      take 34 (script_lines []) @ lines_of (join [CHR 0x0A] (drop 34 (script_lines output_file)))"
    unfolding generate_fontforge_script_def
    by (subst script_lines_split) (rule lines_of_join_append[OF script_head_lines], simp add: t)
  moreover have "lines_of (join [CHR 0x0A] (drop 34 (script_lines output_file))) =
      drop 34 (script_lines output_file)"
    by (rule lines_of_join) (simp_all add: t n)
  ultimately show ?thesis
    unfolding directives_def
    by (simp only: map_append filter_append script_head_directives) (simp add: t)
qed

lemma sublist_join_line:
  assumes "c \<notin> set d"
  shows "sublist d (join [c] ls) \<Longrightarrow> ls \<noteq> [] \<Longrightarrow> \<exists>l \<in> set ls. sublist d l"
proof (induction "[c]" ls rule: join.induct)
  case 1
  then show ?case by simp
next
  case (2 x)
  then show ?case by simp
next
  case (3 x y ys)
  from 3(2) have "sublist d (x @ c # join [c] (y # ys))" by simp
  then consider "sublist d x" | "sublist d (c # join [c] (y # ys))"
    | xs1 xs2 where "d = xs1 @ xs2" "suffix xs1 x" "prefix xs2 (c # join [c] (y # ys))"
    unfolding sublist_append by blast
  then show ?case
  proof cases
    case 1
    then show ?thesis by simp
  next
    case 2
    then have "prefix d (c # join [c] (y # ys)) \<or> sublist d (join [c] (y # ys))"
      by (simp add: sublist_Cons_right)
    then show ?thesis
    proof
      assume "prefix d (c # join [c] (y # ys))"
      then have "d = []" using assms by (cases d) auto
      then show ?thesis by auto
    next
      assume "sublist d (join [c] (y # ys))"
      then show ?thesis using 3(1) by auto
    qed
  next
    case 3
    from 3(3) have "xs2 = []" using assms 3(1) by (cases xs2) auto
    then have "suffix d x" using 3(1,2) by simp
    then show ?thesis by auto
  qed
qed

section \<open>Lemmas on the glyph pipeline\<close>

lemma generate_font_spawned:
  "spawned (snd (generate_font output_file flt run win w)) = spawned w \<or>
   (\<exists>ff. spawned (snd (generate_font output_file flt run win w)) =
      spawned w @ [[ff, ''-script'', path_join (temp_dir win) ''generate_font.pe'']
                    @ sort (glob_svg w (svg_folder win))])"
  by (auto simp: generate_font_def Let_def log_message_def dest!: write_text_keeps
      split: option.splits run_result.splits prod.splits)

lemma generate_font_ok:
  assumes "svg_folder win \<noteq> []" and "output_file \<noteq> []"
    and "path_join (temp_dir win) ''generate_font.pe'' \<notin> dirs w"
    and "fontforge_path win = Some ff"
    and "run ([ff, ''-script'', path_join (temp_dir win) ''generate_font.pe'']
              @ sort (glob_svg w (svg_folder win))) = Completed rc err"
  shows "snd (generate_font output_file NoFault run win w) =
     w\<lparr>files := (files w)(path_join (temp_dir win) ''generate_font.pe'' \<mapsto>
                   generate_fontforge_script output_file),
       spawned := spawned w @ [[ff, ''-script'', path_join (temp_dir win) ''generate_font.pe'']
              @ sort (glob_svg w (svg_folder win))]\<rparr>"
proof -
  let ?w1 = "w\<lparr>files := (files w)(path_join (temp_dir win) ''generate_font.pe'' \<mapsto>
                   generate_fontforge_script output_file)\<rparr>"
  have g: "glob_svg ?w1 (svg_folder win) = glob_svg w (svg_folder win)"
    by (rule glob_svg_entries) simp_all
  show ?thesis
    using assms by (simp add: generate_font_def Let_def write_text_def g)
qed

lemma ex_script_path: "path_join ''/tmp/fg'' ''generate_font.pe'' = ''/tmp/fg/generate_font.pe''"
  by code_simp

lemma ex_abc_sorted:
  "sort (glob_svg (glyph_world [''c.svg'', ''a.svg'', ''b.svg'']) ''/g'') =
     [''/g/a.svg'', ''/g/b.svg'', ''/g/c.svg'']"
  by code_simp

lemma ex_abc_run:
  "snd (generate_font ''out.ttf'' NoFault run_ok window1 (glyph_world [''c.svg'', ''a.svg'', ''b.svg''])) =
     (glyph_world [''c.svg'', ''a.svg'', ''b.svg''])
       \<lparr>files := [''/tmp/fg/generate_font.pe'' \<mapsto> generate_fontforge_script ''out.ttf''],
        spawned := [[''/usr/bin/fontforge'', ''-script'', ''/tmp/fg/generate_font.pe'',
                     ''/g/a.svg'', ''/g/b.svg'', ''/g/c.svg'']]\<rparr>"
proof -
  let ?w = "glyph_world [''c.svg'', ''a.svg'', ''b.svg'']"
  have d: "''/tmp/fg/generate_font.pe'' \<notin> dirs ?w" by (simp add: glyph_world_def)
  have f: "svg_folder window1 = ''/g''" "temp_dir window1 = ''/tmp/fg''"
    "fontforge_path window1 = Some ''/usr/bin/fontforge''"
    by (simp_all add: window1_def window0_def)
  have w: "files ?w = Map.empty" "spawned ?w = []" by (simp_all add: glyph_world_def)
  show ?thesis
    using generate_font_ok[of window1 "''out.ttf''" ?w "''/usr/bin/fontforge''" run_ok 0 "[]"] d
    by (simp add: f w ex_script_path run_ok_def ex_abc_sorted)
qed



section \<open>Lemmas on the parse tree\<close>

lemma find_all_simps:
  "find_all [] = []"
  "find_all (NavigableString s # xs) = find_all xs"
  "find_all (Tag n a cs # xs) = Tag n a cs # find_all cs @ find_all xs"
  by (simp_all add: find_all_def)

lemma find_tag_simps:
  "find_tag nm [] = None"
  "find_tag nm (NavigableString s # xs) = find_tag nm xs"
  "find_tag nm (Tag n a cs # xs) =
     (if n = nm then Some (Tag n a cs)
      else case find_tag nm cs of Some t \<Rightarrow> Some t | None \<Rightarrow> find_tag nm xs)"
  by (simp_all add: find_tag_def find_all_simps split: list.splits)

lemma tags_of_tags: "t \<in> set (tags_of x) \<Longrightarrow> \<exists>n a cs. t = Tag n a cs"
  by (induction x rule: tags_of.induct) auto

lemma find_all_tags: "t \<in> set (find_all soup) \<Longrightarrow> \<exists>n a cs. t = Tag n a cs"
  by (auto simp: find_all_def dest: tags_of_tags)

lemma find_tag_Some:
  assumes "find_tag nm soup = Some t"
  shows "\<exists>a cs. t = Tag nm a cs"
proof -
  from assms obtain ts where e: "filter (\<lambda>t. tag_name t = nm) (find_all soup) = t # ts"
    by (auto simp: find_tag_def split: list.splits)
  have "t \<in> set (filter (\<lambda>t. tag_name t = nm) (find_all soup))"
    unfolding e by simp
  then have "t \<in> set (find_all soup)" "tag_name t = nm" by auto
  then show ?thesis using find_all_tags[of t soup] by auto
qed

lemma find_tag_modify_first:
  "find_tag nm soup = Some (Tag nm a cs) \<Longrightarrow>
   find_tag nm (modify_first nm f soup) = Some (Tag nm a (f cs))"
proof (induction nm f soup rule: modify_first.induct)
  case (1 nm f)
  then show ?case by (simp add: find_tag_simps)
next
  case (2 nm f s xs)
  then show ?case by (simp add: find_tag_simps)
next
  case (3 nm f n a' cs' xs)
  then show ?case by (auto simp: find_tag_simps split: option.splits if_splits)
qed

lemma find_tag_inserted:
  "find_tag nm soup \<noteq> None \<Longrightarrow> find_tag m soup = None \<Longrightarrow>
   find_tag m (modify_first nm (\<lambda>cs. Tag m a' cs' # cs) soup) = Some (Tag m a' cs')"
proof (induction nm "\<lambda>cs. Tag m a' cs' # cs" soup rule: modify_first.induct)
  case (1 nm)
  then show ?case by (simp add: find_tag_simps)
next
  case (2 nm s xs)
  then show ?case by (simp add: find_tag_simps)
next
  case (3 nm n a cs xs)
  then show ?case by (auto simp: find_tag_simps split: option.splits if_splits)
qed

lemma names_simps:
  "tag_names [] = []"
  "tag_names (NavigableString s # xs) = tag_names xs"
  "tag_names (Tag n a cs # xs) = n # tag_names cs @ tag_names xs"
  by (simp_all add: tag_names_def find_all_simps)

lemma names_append: "tag_names (xs @ ys) = tag_names xs @ tag_names ys"
  by (simp add: tag_names_def find_all_def)

lemma mset_names_modify_first:
  "(\<forall>cs. mset (tag_names (f cs)) = mset (tag_names cs) + extra) \<Longrightarrow> find_tag nm soup \<noteq> None \<Longrightarrow>
     mset (tag_names (modify_first nm f soup)) = mset (tag_names soup) + extra"
proof (induction nm f soup rule: modify_first.induct)
  case (1 nm f)
  then show ?case by (simp add: find_tag_simps)
next
  case (2 nm f s xs)
  then show ?case by (simp add: find_tag_simps names_simps)
next
  case (3 nm f n a cs xs)
  then show ?case
    by (auto simp: find_tag_simps names_simps split: option.splits if_splits)
qed

section \<open>Lemmas on the parser\<close>

lemma ascii_lower_not_upper: "\<not> is_upper (ascii_lower c)"
  by (auto simp: ascii_lower_def is_upper_def less_eq_char_def)

lemma str_lower_no_upper: "\<not> list_ex is_upper (str_lower ul s)"
  by (simp add: str_lower_def list_ex_iff ascii_lower_not_upper)

lemma append_child_names:
  "append_child x fs root = (fs', root') \<Longrightarrow>
   mset (open_names fs') + mset (tag_names root') =
     mset (tag_names [x]) + mset (open_names fs) + mset (tag_names root)"
  by (induction x fs root rule: append_child.induct) (auto simp: names_append)

lemma pop_to_tag_names:
  "pop_to_tag nm fs root = (fs', root') \<Longrightarrow>
   mset (open_names fs') + mset (tag_names root') = mset (open_names fs) + mset (tag_names root)"
proof (induction nm fs root arbitrary: fs' root' rule: pop_to_tag.induct)
  case (1 nm root)
  then show ?case by simp
next
  case (2 nm n a cs root)
  then show ?case by (auto simp: names_append names_simps split: if_splits)
next
  case (3 nm n a cs n' a' cs' fs root)
  show ?case
  proof (cases "n = nm")
    case True
    then show ?thesis using 3(2) by (auto simp: names_append names_simps)
  next
    case False
    show ?thesis
    proof (cases "nm \<in> fst ` set ((n', a', cs') # fs)")
      case True
      then have "pop_to_tag nm ((n', a', cs' @ [Tag n a cs]) # fs) root = (fs', root')"
        using 3(2) False by simp
      from 3(1)[OF False True this] show ?thesis by (simp add: names_append names_simps)
    next
      case F: False
      then show ?thesis using 3(2) False by auto
    qed
  qed
qed

lemma end_tag_names:
  "end_tag nm (fs, root, closed) = (fs', root', closed') \<Longrightarrow>
   mset (open_names fs') + mset (tag_names root') = mset (open_names fs) + mset (tag_names root)"
  by (auto split: if_splits prod.splits dest: pop_to_tag_names)

lemma feed_names:
  "feed void (fs, root, closed) e = (fs', root', closed') \<Longrightarrow>
   mset (open_names fs') + mset (tag_names root') =
     mset (start_names [e]) + mset (open_names fs) + mset (tag_names root)"
proof (cases e)
  case (StartTag nm attrs)
  assume "feed void (fs, root, closed) e = (fs', root', closed')"
  then show ?thesis unfolding StartTag
    using pop_to_tag_names[of nm "(nm, attrs, []) # fs" root]
    by (auto simp: names_simps split: if_splits prod.splits)
next
  case (StartEndTag nm attrs)
  assume "feed void (fs, root, closed) e = (fs', root', closed')"
  then show ?thesis unfolding StartEndTag
    using end_tag_names[of nm "(nm, attrs, []) # fs" root closed fs' root' closed']
    by (simp add: names_simps)
next
  case (EndTag nm)
  assume "feed void (fs, root, closed) e = (fs', root', closed')"
  then show ?thesis unfolding EndTag
    using end_tag_names[of nm fs root closed fs' root' closed'] by simp
next
  case (Str s)
  assume "feed void (fs, root, closed) e = (fs', root', closed')"
  then show ?thesis unfolding Str
    using append_child_names[of "NavigableString s" fs root]
    by (auto simp: names_simps split: prod.splits)
qed

lemma start_names_append: "start_names (xs @ ys) = start_names xs @ start_names ys"
  by (induction xs rule: start_names.induct) simp_all

lemma foldl_feed_names:
  "foldl (feed void) (fs, root, closed) evs = (fs', root', closed') \<Longrightarrow>
   mset (open_names fs') + mset (tag_names root') =
     mset (start_names evs) + mset (open_names fs) + mset (tag_names root)"
proof (induction evs arbitrary: fs root closed)
  case Nil
  then show ?case by simp
next
  case (Cons e evs)
  obtain fs1 root1 closed1 where s: "feed void (fs, root, closed) e = (fs1, root1, closed1)"
    by (cases "feed void (fs, root, closed) e") auto
  from Cons.prems have "foldl (feed void) (fs1, root1, closed1) evs = (fs', root', closed')"
    by (simp add: s)
  from Cons.IH[OF this] feed_names[OF s]
  show ?case using start_names_append[of "[e]" evs] by simp
qed

lemma close_all_names:
  "mset (tag_names (close_all fs root)) = mset (open_names fs) + mset (tag_names root)"
  by (induction fs root rule: close_all.induct) (simp_all add: names_append names_simps)

lemma build_names: "mset (tag_names (build void evs)) = mset (start_names evs)"
proof -
  obtain fs root closed where s: "foldl (feed void) ([], [], []) evs = (fs, root, closed)"
    by (cases "foldl (feed void) ([], [], []) evs") auto
  from foldl_feed_names[OF s] show ?thesis
    by (simp add: build_def s close_all_names names_simps)
qed

lemma start_names_lower:
  "start_names (map (lower_event ul) evs) = map (str_lower ul) (start_names evs)"
  by (induction evs rule: start_names.induct) simp_all

lemma bs4_parse_names:
  assumes "bs4_parse p text = Some soup"
  shows "\<exists>evs. scan_events p text = Some evs \<and>
     mset (tag_names soup) = mset (map (str_lower (unicode_lower p)) (start_names evs))"
proof -
  from assms obtain evs where e: "scan_events p text = Some evs"
    and s: "soup = build (is_void p) (map (lower_event (unicode_lower p)) evs)"
    by (auto simp: bs4_parse_def html_events_def)
  have "mset (tag_names soup) = mset (map (str_lower (unicode_lower p)) (start_names evs))"
    unfolding s build_names start_names_lower ..
  then show ?thesis using e by blast
qed

lemma bs4_parse_scanned:
  assumes "scan_tags text = Some evs"
  shows "bs4_parse p text = Some (build (is_void p) (map (lower_event (unicode_lower p)) evs))"
  using assms by (simp add: bs4_parse_def html_events_def scan_events_def)

lemma find_tag_None:
  assumes "nm \<notin> set (tag_names soup)"
  shows "find_tag nm soup = None"
proof -
  have "filter (\<lambda>t. tag_name t = nm) (find_all soup) = []"
    using assms by (auto simp: filter_empty_conv tag_names_def)
  then show ?thesis by (simp add: find_tag_def)
qed

lemma sort_remdups_mset:
  "mset xs = mset ys \<Longrightarrow> sort (remdups xs) = sort (remdups (ys :: 'a :: linorder list))"
proof -
  assume "mset xs = mset ys"
  then have "set xs = set ys" by (rule mset_eq_setD)
  then have "sorted_list_of_set (set xs) = sorted_list_of_set (set ys)" by simp
  then show ?thesis by (simp only: sorted_list_of_set_sort_remdups)
qed
section \<open>Lemmas on the markup pipeline\<close>

lemma tag_names_style: "tag_names (cs @ [style_tag_of sel]) = tag_names cs @ [''style'']"
  by (simp add: names_append style_tag_of_def names_simps)

lemma add_style_with_head:
  assumes "find_tag ''head'' soup = Some h"
  shows "\<exists>a cs. h = Tag ''head'' a cs \<and>
     add_style (css sel) soup = Inr (modify_first ''head'' (\<lambda>cs. cs @ [style_tag_of sel]) soup) \<and>
     find_tag ''head'' (modify_first ''head'' (\<lambda>cs. cs @ [style_tag_of sel]) soup) =
       Some (Tag ''head'' a (cs @ [style_tag_of sel])) \<and>
     mset (tag_names (modify_first ''head'' (\<lambda>cs. cs @ [style_tag_of sel]) soup)) =
       mset (tag_names soup) + {#''style''#}"
proof -
  from find_tag_Some[OF assms] obtain a cs where h: "h = Tag ''head'' a cs" by blast
  have 1: "add_style (css sel) soup = Inr (modify_first ''head'' (\<lambda>cs. cs @ [style_tag_of sel]) soup)"
    using assms by (simp add: add_style_def style_tag_of_def)
  have 2: "find_tag ''head'' (modify_first ''head'' (\<lambda>cs. cs @ [style_tag_of sel]) soup) =
       Some (Tag ''head'' a (cs @ [style_tag_of sel]))"
    using assms unfolding h by (rule find_tag_modify_first)
  have 3: "mset (tag_names (modify_first ''head'' (\<lambda>cs. cs @ [style_tag_of sel]) soup)) =
       mset (tag_names soup) + {#''style''#}"
    by (rule mset_names_modify_first) (simp_all add: tag_names_style assms)
  show ?thesis using h 1 2 3 by blast
qed

lemma add_style_without_head:
  assumes "find_tag ''head'' soup = None" and "find_tag ''html'' soup = Some h"
  shows "\<exists>a cs. h = Tag ''html'' a cs \<and>
     add_style (css sel) soup =
       Inr (modify_first ''html'' (\<lambda>cs. Tag ''head'' [] [style_tag_of sel] # cs) soup) \<and>
     find_tag ''html'' (modify_first ''html'' (\<lambda>cs. Tag ''head'' [] [style_tag_of sel] # cs) soup) =
       Some (Tag ''html'' a (Tag ''head'' [] [style_tag_of sel] # cs)) \<and>
     find_tag ''head'' (modify_first ''html'' (\<lambda>cs. Tag ''head'' [] [style_tag_of sel] # cs) soup) =
       Some (Tag ''head'' [] [style_tag_of sel]) \<and>
     mset (tag_names (modify_first ''html'' (\<lambda>cs. Tag ''head'' [] [style_tag_of sel] # cs) soup)) =
       mset (tag_names soup) + {#''head'', ''style''#}"
proof -
  let ?H = "Tag ''head'' [] [style_tag_of sel]"
  from find_tag_Some[OF assms(2)] obtain a cs where h: "h = Tag ''html'' a cs" by blast
  have 1: "add_style (css sel) soup = Inr (modify_first ''html'' (\<lambda>cs. ?H # cs) soup)"
    using assms by (simp add: add_style_def style_tag_of_def)
  have 2: "find_tag ''html'' (modify_first ''html'' (\<lambda>cs. ?H # cs) soup) =
       Some (Tag ''html'' a (?H # cs))"
    using assms(2) unfolding h by (rule find_tag_modify_first)
  have 3: "find_tag ''head'' (modify_first ''html'' (\<lambda>cs. ?H # cs) soup) = Some ?H"
    by (rule find_tag_inserted) (simp_all add: assms)
  have 4: "mset (tag_names (modify_first ''html'' (\<lambda>cs. ?H # cs) soup)) =
       mset (tag_names soup) + {#''head'', ''style''#}"
    by (rule mset_names_modify_first)
      (simp_all add: assms names_simps style_tag_of_def)
  show ?thesis using h 1 2 3 4 by blast
qed

lemma add_style_fails:
  "find_tag ''head'' soup = None \<Longrightarrow> find_tag ''html'' soup = None \<Longrightarrow>
   add_style c soup = Inl AttributeError"
  by (simp add: add_style_def)

lemma add_style_Inr:
  "add_style c soup = Inr soup' \<Longrightarrow> find_tag ''head'' soup \<noteq> None \<or> find_tag ''html'' soup \<noteq> None"
  by (auto simp: add_style_def Let_def split: if_splits)

lemma modify_try_success:
  assumes "modify_try lib flt sel path w = (Inr b, w')"
  shows "\<exists>content soup soup'.
     read_text lib w path = Inr content \<and> parse lib content = Some soup \<and>
     add_style (css sel) soup = Inr soup' \<and>
     files w' path = Some (render lib soup') \<and> path \<notin> dirs w' \<and>
     files w' (backup_path w path) = files w path \<and>
     backup_dir_of path \<in> dirs w' \<and> entries w' = entries w \<and> spawned w' = spawned w"
  using assms
  by (auto simp: modify_try_def Let_def makedirs_def copy2_def write_text_def read_text_def
      backup_path_def backup_dir_of_def
      split: sum.splits option.splits if_splits fault.splits prod.splits)

lemma modify_try_outcome:
  assumes "modify_try lib flt sel path w = (res, w')"
  shows "(files w' path \<noteq> files w path \<longrightarrow>
            files w' (backup_path w path) = files w path \<and> backup_dir_of path \<in> dirs w')
       \<and> ((\<exists>e. res = Inl e) \<and> (\<forall>n. write_fault flt \<noteq> FailAfter n) \<longrightarrow>
            files w' path = files w path)
       \<and> (makedirs_fault flt \<or> copy_fault flt \<noteq> NoFault \<or> write_fault flt = FailBefore \<longrightarrow>
            files w' path = files w path)
       \<and> ((\<exists>e. read_text lib w path = Inl e) \<longrightarrow> w' = w)
       \<and> ((\<exists>content. read_text lib w path = Inr content \<and>
              (parse lib content = None \<or>
               (\<exists>soup e. parse lib content = Some soup \<and> add_style (css sel) soup = Inl e))) \<longrightarrow>
            w' = w)"
  using assms
  by (auto simp: modify_try_def Let_def makedirs_def copy2_def write_text_def read_text_def
      backup_path_def backup_dir_of_def
      split: sum.splits option.splits if_splits fault.splits prod.splits)

lemma set_tags_list:
  assumes "read_text lib w (html_file win) = Inr content" and "parse lib content = Some soup"
  shows "tags_list (load_html_tags lib win w) =
     filter (\<lambda>tag. tag \<noteq> []) (sort (remdups (tag_names soup)))"
  using assms by (simp add: load_html_tags_def Let_def log_message_def tag_names_def)

lemma ex_paths:
  "dirname ''/site/index.html'' = ''/site''"
  "basename ''/site/index.html'' = ''index.html''"
  "backup_dir_of ''/site/index.html'' = ''/site/backups''"
  by code_simp+

lemma ex_backup_path:
  "backup_path (site_world head_tree) ''/site/index.html'' = ''/site/backups/index.html''"
  by code_simp

lemma ex_site_window: "html_file site_window = ''/site/index.html''" "console site_window = []"
  by (simp_all add: site_window_def window0_def)

lemma ex_scenario_scan:
  "scan_tags ''<html><body><div><p></p></div></body></html>'' =
     Some [StartTag ''html'' [], StartTag ''body'' [], StartTag ''div'' [], StartTag ''p'' [],
           EndTag ''p'', EndTag ''div'', EndTag ''body'', EndTag ''html'']"
  by code_simp

lemma ex_fragment_scan:
  "scan_tags ''<div><p></p></div>'' =
     Some [StartTag ''div'' [], StartTag ''p'' [], EndTag ''p'', EndTag ''div'']"
  by code_simp

lemma ex_lowered:
  "str_lower ul ''html'' = ''html''" "str_lower ul ''body'' = ''body''"
  "str_lower ul ''div'' = ''div''" "str_lower ul ''p'' = ''p''"
  by (simp_all add: str_lower_def is_ascii_def ascii_lower_def is_upper_def less_eq_char_def)

lemma read_text_world:
  assumes "utf8_valid text" and "universal_newlines text = text"
  shows "read_text (bs4_library p r) (text_world text) ''/site/index.html'' = Inr text"
  using assms by (simp add: read_text_def bs4_library_def text_world_def)

lemma ex_texts:
  "utf8_valid ''<html><body><div><p></p></div></body></html>''"
  "universal_newlines ''<html><body><div><p></p></div></body></html>'' =
     ''<html><body><div><p></p></div></body></html>''"
  "utf8_valid ''<div><p></p></div>''"
  "universal_newlines ''<div><p></p></div>'' = ''<div><p></p></div>''"
  by code_simp+

lemma ex_sorted_names:
  "sort (remdups [''html'', ''body'', ''div'', ''p'']) = [''body'', ''div'', ''html'', ''p'']"
  "sort (remdups [''div'', ''p'']) = [''div'', ''p'']"
  by code_simp+

lemma ex_scenario_tags:
  "tags_list (load_html_tags (bs4_library p r) site_window
      (text_world ''<html><body><div><p></p></div></body></html>'')) =
     [''body'', ''div'', ''html'', ''p'']"
proof -
  let ?t = "''<html><body><div><p></p></div></body></html>''"
  let ?evs = "[StartTag ''html'' [], StartTag ''body'' [], StartTag ''div'' [], StartTag ''p'' [],
           EndTag ''p'', EndTag ''div'', EndTag ''body'', EndTag ''html'']"
  have 1: "read_text (bs4_library p r) (text_world ?t) (html_file site_window) = Inr ?t"
    unfolding ex_site_window by (rule read_text_world) (rule ex_texts)+
  have 2: "parse (bs4_library p r) ?t =
      Some (build (is_void p) (map (lower_event (unicode_lower p)) ?evs))"
    using bs4_parse_scanned[OF ex_scenario_scan] by (simp add: bs4_library_def)
  have "mset (tag_names (build (is_void p) (map (lower_event (unicode_lower p)) ?evs))) =
      mset [''html'', ''body'', ''div'', ''p'']"
    unfolding build_names by (simp add: ex_lowered)
  from sort_remdups_mset[OF this]
  have "sort (remdups (tag_names (build (is_void p) (map (lower_event (unicode_lower p)) ?evs)))) =
      [''body'', ''div'', ''html'', ''p'']"
    unfolding ex_sorted_names(1) .
  then show ?thesis unfolding set_tags_list[OF 1 2] by simp
qed

lemma ex_fragment_tree:
  shows "parse (bs4_library p r) ''<div><p></p></div>'' =
      Some (build (is_void p) [StartTag ''div'' [], StartTag ''p'' [], EndTag ''p'', EndTag ''div''])"
    and "mset (tag_names (build (is_void p)
      [StartTag ''div'' [], StartTag ''p'' [], EndTag ''p'', EndTag ''div''])) = mset [''div'', ''p'']"
proof -
  let ?evs = "[StartTag ''div'' [], StartTag ''p'' [], EndTag ''p'', EndTag ''div'']"
  have l: "map (lower_event (unicode_lower p)) ?evs = ?evs" by (simp add: ex_lowered)
  show "parse (bs4_library p r) ''<div><p></p></div>'' = Some (build (is_void p) ?evs)"
    using bs4_parse_scanned[OF ex_fragment_scan, of p] unfolding l by (simp add: bs4_library_def)
  show "mset (tag_names (build (is_void p) ?evs)) = mset [''div'', ''p'']"
    unfolding build_names by simp
qed

section \<open>The claims on the glyph pipeline\<close>

text \<open>
  Claim C2, as the code has it. The builder takes no glyph list and writes no block per
  glyph. Whatever the output path, the directives of the emitted script begin with the
  font set-up and one loop over the arguments the compiler is started with
  (\<^verbatim>\<open>foreach($argv)\<close> to \<^verbatim>\<open>endloop\<close>), whose body opens the argument, selects all,
  copies, closes, takes the code point of the first character of the base name, pastes,
  sets the width 600 and clears the selection. For an output path without a line feed
  three directives follow and no more: \<^verbatim>\<open>Generate\<close> with the path, \<^verbatim>\<open>Close()\<close> and
  \<^verbatim>\<open>Quit(0)\<close>; the loop is then the only one. The glyph files are arguments of the
  compiler: whenever \<^verbatim>\<open>generate_font\<close> starts it, the arguments after the script path
  are the paths found, sorted, which is the order of the file names when the path of the
  folder holds no wildcard character. In the scenario (a folder listing \<^verbatim>\<open>c.svg\<close>,
  \<^verbatim>\<open>a.svg\<close>, \<^verbatim>\<open>b.svg\<close>, output \<^verbatim>\<open>out.ttf\<close>) the script is written to the
  temporary directory and the compiler is started on it with the three files in the order
  of their names.
\<close>

theorem script_has_one_glyph_loop:
  \<open>(\<exists>rest. directives (generate_fontforge_script output_file) =
       [''New()'',
        ''SetFontNames("MyCustomFont", "MyCustomFont", "MyCustomFont", "Regular")'',
        ''SetTTFName(0x409, 1, "MyCustomFont")'',
        ''SetTTFName(0x409, 2, "Regular")'',
        ''SetTTFName(0x409, 3, "MyCustomFont")'',
        ''SetTTFName(0x409, 4, "MyCustomFont")'',
        ''SetTTFName(0x409, 5, "Version 1.0")'',
        ''ScaleToEm(1000)'',
        ''foreach($argv)'',
        ''Open($1)'', ''SelectAll()'', ''Copy()'', ''Close()'',
        ''filename = FileName($1)'', ''base = FileBaseName(filename)'',
        ''Select(CharToUnicode(substr(base, 0, 1)))'',
        ''Paste()'', ''SetWidth(600)'', ''SelectNone()'',
        ''endloop''] @ rest \<and>
       (CHR 0x0A \<notin> set output_file \<longrightarrow>
          rest = [''Generate("'' @ str_replace [CHR 0x5C, CHR 0x5C] ''/'' output_file @ ''")'',
                  ''Close()'', ''Quit(0)'']))
   \<and> (spawned (snd (generate_font output_file flt run win w)) = spawned w \<or>
        (\<exists>ff. spawned (snd (generate_font output_file flt run win w)) =
           spawned w @ [[ff, ''-script'', path_join (temp_dir win) ''generate_font.pe'']
                         @ sort (glob_svg w (svg_folder win))]))
   \<and> sorted (sort (glob_svg w (svg_folder win)))
   \<and> (\<not> has_magic (svg_folder win) \<longrightarrow>
         sorted (map basename (sort (glob_svg w (svg_folder win)))))
   \<and> snd (generate_font ''out.ttf'' NoFault run_ok window1
            (glyph_world [''c.svg'', ''a.svg'', ''b.svg''])) =
       (glyph_world [''c.svg'', ''a.svg'', ''b.svg''])
         \<lparr>files := [''/tmp/fg/generate_font.pe'' \<mapsto> generate_fontforge_script ''out.ttf''],
          spawned := [[''/usr/bin/fontforge'', ''-script'', ''/tmp/fg/generate_font.pe'',
                       ''/g/a.svg'', ''/g/b.svg'', ''/g/c.svg'']]\<rparr>\<close>
proof -
  from directives_start[of output_file] obtain rest where
    r: "directives (generate_fontforge_script output_file) = setup_and_loop @ rest" by blast
  have "rest = [''Generate(\"'' @ str_replace [CHR 0x5C, CHR 0x5C] ''/'' output_file @ ''\")'',
                  ''Close()'', ''Quit(0)'']" if "CHR 0x0A \<notin> set output_file"
    using directives_eq[OF that] unfolding r by simp
  then have 1: \<open>\<exists>rest. directives (generate_fontforge_script output_file) =
       [''New()'',
        ''SetFontNames("MyCustomFont", "MyCustomFont", "MyCustomFont", "Regular")'',
        ''SetTTFName(0x409, 1, "MyCustomFont")'',
        ''SetTTFName(0x409, 2, "Regular")'',
        ''SetTTFName(0x409, 3, "MyCustomFont")'',
        ''SetTTFName(0x409, 4, "MyCustomFont")'',
        ''SetTTFName(0x409, 5, "Version 1.0")'',
        ''ScaleToEm(1000)'',
        ''foreach($argv)'',
        ''Open($1)'', ''SelectAll()'', ''Copy()'', ''Close()'',
        ''filename = FileName($1)'', ''base = FileBaseName(filename)'',
        ''Select(CharToUnicode(substr(base, 0, 1)))'',
        ''Paste()'', ''SetWidth(600)'', ''SelectNone()'',
        ''endloop''] @ rest \<and>
       (CHR 0x0A \<notin> set output_file \<longrightarrow>
          rest = [''Generate("'' @ str_replace [CHR 0x5C, CHR 0x5C] ''/'' output_file @ ''")'',
                  ''Close()'', ''Quit(0)''])\<close>
    using r unfolding setup_and_loop_def by blast
  have 2: "sorted (sort (glob_svg w (svg_folder win)))" by simp
  show ?thesis
    using 1 2 generate_font_spawned[of output_file flt run win w]
      sorted_basename_sort_glob[of "svg_folder win" w] ex_abc_run
    by blast
qed

theorem script_has_one_glyph_loop_witness:
  \<open>directives (generate_fontforge_script ''out.ttf'') =
     [''New()'',
      ''SetFontNames("MyCustomFont", "MyCustomFont", "MyCustomFont", "Regular")'',
      ''SetTTFName(0x409, 1, "MyCustomFont")'',
      ''SetTTFName(0x409, 2, "Regular")'',
      ''SetTTFName(0x409, 3, "MyCustomFont")'',
      ''SetTTFName(0x409, 4, "MyCustomFont")'',
      ''SetTTFName(0x409, 5, "Version 1.0")'',
      ''ScaleToEm(1000)'',
      ''foreach($argv)'',
      ''Open($1)'', ''SelectAll()'', ''Copy()'', ''Close()'',
      ''filename = FileName($1)'', ''base = FileBaseName(filename)'',
      ''Select(CharToUnicode(substr(base, 0, 1)))'',
      ''Paste()'', ''SetWidth(600)'', ''SelectNone()'',
      ''endloop''] @
     [''Generate("out.ttf")'', ''Close()'', ''Quit(0)''] \<and>
   sorted (map basename (sort (glob_svg (glyph_world [''c.svg'', ''a.svg'', ''b.svg'']) ''/g''))) \<and>
   spawned (snd (generate_font ''out.ttf'' NoFault run_ok window1
            (glyph_world [''c.svg'', ''a.svg'', ''b.svg'']))) =
     [[''/usr/bin/fontforge'', ''-script'', ''/tmp/fg/generate_font.pe'',
       ''/g/a.svg'', ''/g/b.svg'', ''/g/c.svg'']]\<close>
proof -
  have t: "str_replace [CHR 0x5C, CHR 0x5C] ''/'' ''out.ttf'' = ''out.ttf''" by simp
  have n: "CHR 0x0A \<notin> set ''out.ttf''" by simp
  have f: "svg_folder window1 = ''/g''" by (simp add: window1_def)
  have m: "\<not> has_magic ''/g''" by (simp add: has_magic_def)
  note c = script_has_one_glyph_loop[of "''out.ttf''" NoFault run_ok window1
      "glyph_world [''c.svg'', ''a.svg'', ''b.svg'']", unfolded t f]
  from c n have d: \<open>directives (generate_fontforge_script ''out.ttf'') =
     [''New()'',
      ''SetFontNames("MyCustomFont", "MyCustomFont", "MyCustomFont", "Regular")'',
      ''SetTTFName(0x409, 1, "MyCustomFont")'',
      ''SetTTFName(0x409, 2, "Regular")'',
      ''SetTTFName(0x409, 3, "MyCustomFont")'',
      ''SetTTFName(0x409, 4, "MyCustomFont")'',
      ''SetTTFName(0x409, 5, "Version 1.0")'',
      ''ScaleToEm(1000)'',
      ''foreach($argv)'',
      ''Open($1)'', ''SelectAll()'', ''Copy()'', ''Close()'',
      ''filename = FileName($1)'', ''base = FileBaseName(filename)'',
      ''Select(CharToUnicode(substr(base, 0, 1)))'',
      ''Paste()'', ''SetWidth(600)'', ''SelectNone()'',
      ''endloop''] @
     [''Generate("'' @ ''out.ttf'' @ ''")'', ''Close()'', ''Quit(0)'']\<close>
    by blast
  from c m have s: "sorted (map basename (sort (glob_svg (glyph_world [''c.svg'', ''a.svg'', ''b.svg'']) ''/g'')))"
    by blast
  from c have r: "spawned (snd (generate_font ''out.ttf'' NoFault run_ok window1
            (glyph_world [''c.svg'', ''a.svg'', ''b.svg'']))) =
     [[''/usr/bin/fontforge'', ''-script'', ''/tmp/fg/generate_font.pe'',
       ''/g/a.svg'', ''/g/b.svg'', ''/g/c.svg'']]" by simp
  show ?thesis using s r unfolding d by simp
qed

text \<open>
  Claim C2 as stated fails in the scenario: among the directives of the script there is
  one \<^verbatim>\<open>Open\<close> and one \<^verbatim>\<open>Paste\<close>, not three; the script names no glyph file; and
  it does not hold the \<^verbatim>\<open>SetFontNames\<close> directive as the claim spells it, without a
  blank after each comma.
\<close>

theorem script_three_blocks_counterexample:
  \<open>length (filter (prefix ''Open('') (directives (generate_fontforge_script ''out.ttf''))) = 1 \<and>
   length (filter (prefix ''Paste('') (directives (generate_fontforge_script ''out.ttf''))) = 1 \<and>
   \<not> sublist ''SetFontNames("MyCustomFont","MyCustomFont","MyCustomFont","Regular")''
       (generate_fontforge_script ''out.ttf'') \<and>
   \<not> sublist ''.svg'' (generate_fontforge_script ''out.ttf'')\<close>
proof -
  have n: "script_lines ''out.ttf'' \<noteq> []" by (simp add: script_lines_def)
  have "CHR 0x0A \<notin> set ''out.ttf''" by simp
  from directives_eq[OF this]
  have 0: "length (filter (prefix ''Open('') (directives (generate_fontforge_script ''out.ttf''))) = 1 \<and>
   length (filter (prefix ''Paste('') (directives (generate_fontforge_script ''out.ttf''))) = 1"
    by (simp add: setup_and_loop_def)
  have 1: \<open>\<not> list_ex (sublist ''SetFontNames("MyCustomFont","MyCustomFont","MyCustomFont","Regular")'')
       (script_lines ''out.ttf'') \<and>
   \<not> list_ex (sublist ''.svg'') (script_lines ''out.ttf'')\<close>
    by code_simp
  have 2: \<open>CHR 0x0A \<notin> set ''SetFontNames("MyCustomFont","MyCustomFont","MyCustomFont","Regular")''\<close>
    "CHR 0x0A \<notin> set ''.svg''" by simp_all
  show ?thesis
    using 0 1 sublist_join_line[OF 2(1) _ n] sublist_join_line[OF 2(2) _ n]
    unfolding generate_fontforge_script_def list_ex_iff by blast
qed

text \<open>
  Claim C3. The script is a function of the output path alone, and the output path enters
  it at one place: there are two fixed texts such that, for every output path, the script
  is the first text, the path with each pair of backslashes turned into a slash, and the
  second text. (The font name is the constant \<open>FONT_NAME\<close>; no other part of the window
  or of the file system is read.)
\<close>

theorem script_fixed_but_output_path:
  "\<exists>pre post. \<forall>output_file.
     generate_fontforge_script output_file =
       pre @ str_replace [CHR 0x5C, CHR 0x5C] ''/'' output_file @ post"
  using script_split by blast

theorem script_fixed_but_output_path_witness:
  "\<exists>pre post.
     generate_fontforge_script ''out.ttf'' = pre @ ''out.ttf'' @ post \<and>
     generate_fontforge_script (''C:'' @ [CHR 0x5C, CHR 0x5C] @ ''f.ttf'') = pre @ ''C:/f.ttf'' @ post"
proof -
  from script_fixed_but_output_path obtain pre post where
    e: "\<And>output_file. generate_fontforge_script output_file =
       pre @ str_replace [CHR 0x5C, CHR 0x5C] ''/'' output_file @ post" by blast
  have "str_replace [CHR 0x5C, CHR 0x5C] ''/'' ''out.ttf'' = ''out.ttf''" by simp
  moreover have "str_replace [CHR 0x5C, CHR 0x5C] ''/'' (''C:'' @ [CHR 0x5C, CHR 0x5C] @ ''f.ttf'') = ''C:/f.ttf''"
    by simp
  ultimately show ?thesis using e[of "''out.ttf''"] e[of "''C:'' @ [CHR 0x5C, CHR 0x5C] @ ''f.ttf''"]
    by (intro exI[of _ pre] exI[of _ post]) (simp only:)
qed




text \<open>
  Claim C8, as the code has it. The test for a folder without glyph files is made when the
  folder is chosen, not when the font is generated, and it is a test of what the pattern
  \<open>folder/*.svg\<close> matches: for a folder whose path holds none of the wildcard characters
  \<^verbatim>\<open>*\<close>, \<^verbatim>\<open>?\<close> and \<^verbatim>\<open>[\<close>, nothing matches if and only if the folder holds no
  glyph file. If nothing matches, \<^verbatim>\<open>select_svg_folder\<close> reports it, disables the
  button and changes nothing else, and a click on the disabled button does nothing.
  \<^verbatim>\<open>generate_font\<close> tests only that a folder has been chosen: as long as the pattern of
  the chosen folder matches something when the method runs (the hypothesis, which
  \<^verbatim>\<open>select_svg_folder\<close> establishes), every process it starts gets a non-empty list of
  glyph files.
\<close>

theorem empty_folder_rejected_when_chosen:
  assumes "svg_folder win = [] \<or> glob_svg w (svg_folder win) \<noteq> []"
  shows "(\<forall>d. \<not> has_magic d \<longrightarrow> (glob_svg w d = []) = (svg_names w d = []))
       \<and> (folder \<noteq> [] \<and> glob_svg w folder = [] \<longrightarrow>
            select_svg_folder folder win w =
              win\<lparr>generate_btn := False, console := console win @ [NoSvgFound]\<rparr> \<and>
            generate_btn_clicked output_file flt run (select_svg_folder folder win w) w' =
              (select_svg_folder folder win w, w'))
       \<and> (svg_folder (select_svg_folder folder win w) = [] \<or>
            glob_svg w (svg_folder (select_svg_folder folder win w)) \<noteq> [])
       \<and> (spawned (snd (generate_font output_file flt run win w)) = spawned w \<or>
            (\<exists>ff fs. fs \<noteq> [] \<and>
               spawned (snd (generate_font output_file flt run win w)) =
                 spawned w @ [[ff, ''-script'', path_join (temp_dir win) ''generate_font.pe''] @ fs]))"
proof (intro conjI impI allI)
  fix d assume "\<not> has_magic d"
  then show "(glob_svg w d = []) = (svg_names w d = [])" by (rule glob_svg_empty)
next
  assume a: "folder \<noteq> [] \<and> glob_svg w folder = []"
  then show "select_svg_folder folder win w =
              win\<lparr>generate_btn := False, console := console win @ [NoSvgFound]\<rparr>"
    by (simp add: select_svg_folder_def log_message_def)
  then show "generate_btn_clicked output_file flt run (select_svg_folder folder win w) w' =
              (select_svg_folder folder win w, w')"
    by (simp add: generate_btn_clicked_def)
next
  show "svg_folder (select_svg_folder folder win w) = [] \<or>
            glob_svg w (svg_folder (select_svg_folder folder win w)) \<noteq> []"
    using assms by (auto simp: select_svg_folder_def log_message_def Let_def)
next
  show "spawned (snd (generate_font output_file flt run win w)) = spawned w \<or>
            (\<exists>ff fs. fs \<noteq> [] \<and>
               spawned (snd (generate_font output_file flt run win w)) =
                 spawned w @ [[ff, ''-script'', path_join (temp_dir win) ''generate_font.pe''] @ fs])"
  proof (cases "svg_folder win = []")
    case True
    then show ?thesis by (simp add: generate_font_def)
  next
    case False
    then have "sort (glob_svg w (svg_folder win)) \<noteq> []" using assms
      by (metis length_sort length_0_conv)
    then show ?thesis using generate_font_spawned[of output_file flt run win w] by blast
  qed
qed

theorem empty_folder_rejected_when_chosen_witness:
  "svg_names (glyph_world [''notes.txt'']) ''/g'' = [] \<and>
   select_svg_folder ''/g'' window0 (glyph_world [''notes.txt'']) =
     window0\<lparr>generate_btn := False, console := [NoSvgFound]\<rparr> \<and>
   generate_btn_clicked ''out.ttf'' NoFault run_ok
       (select_svg_folder ''/g'' window0 (glyph_world [''notes.txt''])) (glyph_world [''a.svg'']) =
     (window0\<lparr>generate_btn := False, console := [NoSvgFound]\<rparr>, glyph_world [''a.svg''])"
proof -
  have a: "svg_folder window0 = [] \<or> glob_svg (glyph_world [''notes.txt'']) (svg_folder window0) \<noteq> []"
    by (simp add: window0_def)
  have n: "svg_names (glyph_world [''notes.txt'']) ''/g'' = []" by code_simp
  have m: "\<not> has_magic ''/g''" by (simp add: has_magic_def)
  have c: "console window0 = []" by (simp add: window0_def)
  note t = empty_folder_rejected_when_chosen[OF a, where folder = "''/g''" and output_file = "''out.ttf''"
      and flt = NoFault and run = run_ok and w' = "glyph_world [''a.svg'']"]
  from t m n have g: "glob_svg (glyph_world [''notes.txt'']) ''/g'' = []" by blast
  then have pre: "''/g'' \<noteq> [] \<and> glob_svg (glyph_world [''notes.txt'']) ''/g'' = []" by simp
  from t pre
  have 1: "select_svg_folder ''/g'' window0 (glyph_world [''notes.txt'']) =
      window0\<lparr>generate_btn := False, console := console window0 @ [NoSvgFound]\<rparr>"
    and 2: "generate_btn_clicked ''out.ttf'' NoFault run_ok
       (select_svg_folder ''/g'' window0 (glyph_world [''notes.txt''])) (glyph_world [''a.svg'']) =
       (select_svg_folder ''/g'' window0 (glyph_world [''notes.txt'']), glyph_world [''a.svg''])"
    by blast+
  show ?thesis using 2 n unfolding 1 c by simp
qed

text \<open>
  Claim C8 as stated fails: \<^verbatim>\<open>generate_font\<close> lists the folder again and does not look
  at the number of files. A folder chosen with one glyph file and emptied before the click:
  the button is enabled, the script is written and FontForge is started with no glyph
  file.
\<close>

theorem generate_font_empty_glyph_list_counterexample:
  "svg_names (glyph_world []) ''/g'' = [] \<and> glob_svg (glyph_world []) ''/g'' = [] \<and>
   generate_btn (select_svg_folder ''/g'' window0 (glyph_world [''a.svg''])) \<and>
   spawned (snd (generate_btn_clicked ''out.ttf'' NoFault run_ok
       (select_svg_folder ''/g'' window0 (glyph_world [''a.svg''])) (glyph_world []))) =
     [[''/usr/bin/fontforge'', ''-script'', ''/tmp/fg/generate_font.pe'']] \<and>
   files (snd (generate_btn_clicked ''out.ttf'' NoFault run_ok
       (select_svg_folder ''/g'' window0 (glyph_world [''a.svg''])) (glyph_world [])))
     ''/tmp/fg/generate_font.pe'' = Some (generate_fontforge_script ''out.ttf'')"
proof -
  have g0: "glob_svg (glyph_world []) ''/g'' = []" by code_simp
  have n0: "svg_names (glyph_world []) ''/g'' = []" by code_simp
  have g1: "glob_svg (glyph_world [''a.svg'']) ''/g'' = [''/g/a.svg'']" by code_simp
  let ?win = "select_svg_folder ''/g'' window0 (glyph_world [''a.svg''])"
  have s: "?win = window0\<lparr>svg_folder := ''/g'', generate_btn := True,
       console := [FolderSelected ''/g'' 1]\<rparr>"
    by (simp add: select_svg_folder_def g1 log_message_def window0_def)
  have f: "svg_folder ?win = ''/g''" "temp_dir ?win = ''/tmp/fg''"
    "fontforge_path ?win = Some ''/usr/bin/fontforge''" "generate_btn ?win"
    unfolding s by (simp_all add: window0_def)
  have d: "''/tmp/fg/generate_font.pe'' \<notin> dirs (glyph_world [])"
    by (simp add: glyph_world_def)
  have e: "snd (generate_font ''out.ttf'' NoFault run_ok ?win (glyph_world [])) =
    (glyph_world [])\<lparr>files := (files (glyph_world []))(''/tmp/fg/generate_font.pe'' \<mapsto>
                   generate_fontforge_script ''out.ttf''),
       spawned := spawned (glyph_world []) @
         [[''/usr/bin/fontforge'', ''-script'', ''/tmp/fg/generate_font.pe'']]\<rparr>"
    using generate_font_ok[of ?win "''out.ttf''" "glyph_world []"
        "''/usr/bin/fontforge''" run_ok 0 "[]"] d
    by (simp add: f ex_script_path run_ok_def g0)
  have sp: "spawned (glyph_world []) = []" by (simp add: glyph_world_def)
  show ?thesis
    by (simp add: g0 n0 generate_btn_clicked_def f e sp)
qed

section \<open>The claims on the markup pipeline\<close>

text \<open>
  Claim C1, as the code has it. In every run of \<^verbatim>\<open>modify_html\<close>: if the document file
  is not what it was, then the backup, in the directory \<^verbatim>\<open>backups\<close> beside it, holds
  the bytes the document had before the call (the copy is made before the document is
  opened for writing); a run that reports an error has left the document as it was, unless
  the environment failed the write of the document itself after opening it; a failure of
  \<^verbatim>\<open>os.makedirs\<close>, of the copy, or of opening the document for writing leaves the
  document as it was; and a failure to read, to parse or to place the style tag leaves the
  whole file system as it was.
\<close>

theorem backup_precedes_overwrite:
  assumes "modify_html lib flt selected_tags win w = (win', w')"
  shows "(files w' (html_file win) \<noteq> files w (html_file win) \<longrightarrow>
            files w' (backup_path w (html_file win)) = files w (html_file win) \<and>
            backup_dir_of (html_file win) \<in> dirs w')
       \<and> ((\<exists>e. console win' = console win @ [ModifyError e]) \<and>
            (\<forall>n. write_fault flt \<noteq> FailAfter n) \<longrightarrow>
            files w' (html_file win) = files w (html_file win))
       \<and> (makedirs_fault flt \<or> copy_fault flt \<noteq> NoFault \<or> write_fault flt = FailBefore \<longrightarrow>
            files w' (html_file win) = files w (html_file win))
       \<and> ((\<exists>e. read_text lib w (html_file win) = Inl e) \<longrightarrow> w' = w)
       \<and> ((\<exists>content. read_text lib w (html_file win) = Inr content \<and>
              (parse lib content = None \<or>
               (\<exists>soup e. parse lib content = Some soup \<and>
                  add_style (css selected_tags) soup = Inl e))) \<longrightarrow>
            w' = w)"
proof (cases "html_file win = [] \<or> selected_tags = []")
  case True
  then have "w' = w" using assms by (auto simp: modify_html_def split: if_splits)
  then show ?thesis by simp
next
  case False
  obtain res w1 where t: "modify_try lib flt selected_tags (html_file win) w = (res, w1)"
    by (cases "modify_try lib flt selected_tags (html_file win) w")
  have w: "w' = w1" using assms False t
    by (auto simp: modify_html_def Let_def split: sum.splits)
  have e: "\<exists>e. res = Inl e" if "console win' = console win @ [ModifyError e]" for e
    using assms False t that
    by (cases res) (auto simp: modify_html_def Let_def log_message_def split: if_splits)
  show ?thesis using modify_try_outcome[OF t] e unfolding w by blast
qed


theorem backup_precedes_overwrite_witness:
  "files (snd (modify_html (table_library [head_tree]) no_faults [''p''] site_window
        (site_world head_tree))) ''/site/index.html'' \<noteq>
     files (site_world head_tree) ''/site/index.html'' \<and>
   files (snd (modify_html (table_library [head_tree]) no_faults [''p''] site_window
        (site_world head_tree))) ''/site/backups/index.html'' =
     files (site_world head_tree) ''/site/index.html'' \<and>
   ''/site/backups'' \<in> dirs (snd (modify_html (table_library [head_tree]) no_faults [''p'']
        site_window (site_world head_tree)))"
proof -
  let ?r = "modify_html (table_library [head_tree]) no_faults [''p''] site_window
        (site_world head_tree)"
  have n: "files (snd ?r) ''/site/index.html'' \<noteq> files (site_world head_tree) ''/site/index.html''"
    by code_simp
  have "?r = (fst ?r, snd ?r)" by simp
  from backup_precedes_overwrite[OF this] n
  show ?thesis unfolding ex_site_window ex_backup_path ex_paths by blast
qed

text \<open>
  Claim C1 as stated fails for a failure to write the document itself: the document is
  opened with mode \<^verbatim>\<open>'w'\<close>, which truncates it, and nothing restores it when the write
  then fails. Here the write fails before any byte is written: the error is reported and
  the document is left empty (its bytes are in the backup).
\<close>

theorem write_failure_truncates_counterexample:
  "files (site_world head_tree) ''/site/index.html'' = Some (render_plain head_tree) \<and>
   render_plain head_tree \<noteq> [] \<and>
   console (fst (modify_html (table_library [head_tree]) (no_faults\<lparr>write_fault := FailAfter 0\<rparr>)
      [''p''] site_window (site_world head_tree))) = [ModifyError OSError] \<and>
   files (snd (modify_html (table_library [head_tree]) (no_faults\<lparr>write_fault := FailAfter 0\<rparr>)
      [''p''] site_window (site_world head_tree))) ''/site/index.html'' = Some []"
  by code_simp

text \<open>
  Claim C5. The parser is \<^verbatim>\<open>html.parser\<close> under BeautifulSoup. For a document that is
  read and parsed, the items \<^verbatim>\<open>load_html_tags\<close> puts in the list are sorted ascending
  and distinct; they are the non-empty names of the tags found anywhere in the tree; they
  are the names of the start tags of the text, each in lower case; and none of them is
  empty or holds an upper-case letter. For the document of the scenario, whatever the
  parts of the library the model leaves open, the items are \<^verbatim>\<open>body\<close>, \<^verbatim>\<open>div\<close>,
  \<^verbatim>\<open>html\<close>, \<^verbatim>\<open>p\<close>.
\<close>

theorem tag_extractor_sorted_distinct:
  assumes "read_text (bs4_library p r) w (html_file win) = Inr content"
    and "bs4_parse p content = Some soup"
  shows "sorted (tags_list (load_html_tags (bs4_library p r) win w))
       \<and> distinct (tags_list (load_html_tags (bs4_library p r) win w))
       \<and> set (tags_list (load_html_tags (bs4_library p r) win w)) = tag_name ` set (find_all soup) - {[]}
       \<and> (\<exists>evs. scan_events p content = Some evs \<and>
             set (tags_list (load_html_tags (bs4_library p r) win w)) =
               str_lower (unicode_lower p) ` set (start_names evs) - {[]})
       \<and> (\<forall>n \<in> set (tags_list (load_html_tags (bs4_library p r) win w)). n \<noteq> [] \<and> \<not> list_ex is_upper n)
       \<and> tags_list (load_html_tags (bs4_library p r) site_window
             (text_world ''<html><body><div><p></p></div></body></html>'')) =
           [''body'', ''div'', ''html'', ''p'']"
proof -
  let ?l = "tags_list (load_html_tags (bs4_library p r) win w)"
  have "parse (bs4_library p r) content = Some soup"
    using assms(2) by (simp add: bs4_library_def)
  with assms(1) have e: "?l = filter (\<lambda>tag. tag \<noteq> []) (sort (remdups (tag_names soup)))"
    by (rule set_tags_list)
  from bs4_parse_names[OF assms(2)] obtain evs where
    s: "scan_events p content = Some evs"
    and m: "mset (tag_names soup) = mset (map (str_lower (unicode_lower p)) (start_names evs))"
    by blast
  have i: "set (tag_names soup) = str_lower (unicode_lower p) ` set (start_names evs)"
    using mset_eq_setD[OF m] by simp
  have 1: "sorted ?l" unfolding e by (simp add: sorted_wrt_filter)
  have 2: "distinct ?l" unfolding e by simp
  have 3: "set ?l = tag_name ` set (find_all soup) - {[]}"
    unfolding e by (auto simp: tag_names_def)
  have 4: "set ?l = str_lower (unicode_lower p) ` set (start_names evs) - {[]}"
    unfolding i[symmetric] e by auto
  have "[] \<notin> set ?l" unfolding e by simp
  moreover have "\<not> list_ex is_upper n" if "n \<in> set ?l" for n
    using that str_lower_no_upper unfolding 4 by blast
  ultimately have 5: "\<forall>n \<in> set ?l. n \<noteq> [] \<and> \<not> list_ex is_upper n"
    by blast
  show ?thesis using 1 2 3 4 5 s ex_scenario_tags[of p r] by blast
qed

theorem tag_extractor_sorted_distinct_witness:
  "tags_list (load_html_tags (bs4_library parser0 render_plain) site_window
      (text_world ''<HTML><Body><DIV><div></div></DIV><br></Body></HTML>'')) =
     [''body'', ''br'', ''div'', ''html''] \<and>
   scan_events parser0 ''<HTML><Body><DIV><div></div></DIV><br></Body></HTML>'' =
     Some [StartTag ''HTML'' [], StartTag ''Body'' [], StartTag ''DIV'' [], StartTag ''div'' [],
           EndTag ''div'', EndTag ''DIV'', StartTag ''br'' [], EndTag ''Body'', EndTag ''HTML''] \<and>
   tags_list (load_html_tags (bs4_library parser0 render_plain) site_window
      (text_world ''<html><body><div><p></p></div></body></html>'')) =
     [''body'', ''div'', ''html'', ''p'']"
proof -
  let ?t = "''<HTML><Body><DIV><div></div></DIV><br></Body></HTML>''"
  have 1: "read_text (bs4_library parser0 render_plain) (text_world ?t) (html_file site_window) =
      Inr ?t"
    by code_simp
  have 2: "bs4_parse parser0 ?t =
      Some [Tag ''html'' [] [Tag ''body'' [] [Tag ''div'' [] [Tag ''div'' [] []], Tag ''br'' [] []]]]"
    by code_simp
  have 3: "tags_list (load_html_tags (bs4_library parser0 render_plain) site_window (text_world ?t)) =
      [''body'', ''br'', ''div'', ''html'']"
    by code_simp
  have 4: "scan_events parser0 ?t =
     Some [StartTag ''HTML'' [], StartTag ''Body'' [], StartTag ''DIV'' [], StartTag ''div'' [],
           EndTag ''div'', EndTag ''DIV'', StartTag ''br'' [], EndTag ''Body'', EndTag ''HTML'']"
    by code_simp
  from tag_extractor_sorted_distinct[OF 1 2]
  have "tags_list (load_html_tags (bs4_library parser0 render_plain) site_window
      (text_world ''<html><body><div><p></p></div></body></html>'')) =
     [''body'', ''div'', ''html'', ''p'']"
    by blast
  then show ?thesis using 3 4 by simp
qed

text \<open>
  Claim C6. With no tag selected, \<^verbatim>\<open>modify_html\<close> appends one console line (that no
  file is chosen, or that no tag is selected) and returns: the file system is what it was.
\<close>

theorem no_tags_selected_rejected:
  "modify_html lib flt [] win w =
     (log_message (if html_file win = [] then SelectFileFirst else SelectTagFirst) win, w)"
  by (simp add: modify_html_def)

theorem no_tags_selected_rejected_witness:
  "modify_html (table_library [doc_tree]) no_faults [] site_window (site_world doc_tree) =
     (site_window\<lparr>console := [SelectTagFirst]\<rparr>, site_world doc_tree)"
  using no_tags_selected_rejected[of "table_library [doc_tree]" no_faults site_window
      "site_world doc_tree"]
  by (simp add: ex_site_window log_message_def)

text \<open>
  Claim C7. A successful augmentation is a run of \<^verbatim>\<open>modify_html\<close> whose
  \<^verbatim>\<open>try\<close> body ends without an exception. The document is then read and parsed, and the
  file holds the serialisation of the changed tree. If the tree had a \<^verbatim>\<open>head\<close>, the first
  \<^verbatim>\<open>head\<close> of the changed tree is that tag with the style tag as its last child, and the
  tags of the tree are those it had and one \<^verbatim>\<open>style\<close>. If it had none, the first
  \<^verbatim>\<open>html\<close> tag has a new \<^verbatim>\<open>head\<close> as its first child, before all it had; that
  \<^verbatim>\<open>head\<close> holds the style tag only and is the first \<^verbatim>\<open>head\<close> of the tree; and the tags
  are those the tree had, one \<^verbatim>\<open>head\<close> and one \<^verbatim>\<open>style\<close>.
\<close>

theorem style_block_placement:
  assumes "modify_try lib flt selected_tags path w = (Inr backup_file, w')"
  shows "\<exists>content soup soup'.
     read_text lib w path = Inr content \<and> parse lib content = Some soup \<and>
     add_style (css selected_tags) soup = Inr soup' \<and>
     files w' path = Some (render lib soup') \<and>
     (case find_tag ''head'' soup of
        Some h \<Rightarrow>
          (\<exists>a cs. h = Tag ''head'' a cs \<and>
             find_tag ''head'' soup' = Some (Tag ''head'' a (cs @ [style_tag_of selected_tags]))) \<and>
          mset (tag_names soup') = mset (tag_names soup) + {#''style''#}
      | None \<Rightarrow>
          (\<exists>a cs. find_tag ''html'' soup = Some (Tag ''html'' a cs) \<and>
             find_tag ''html'' soup' =
               Some (Tag ''html'' a (Tag ''head'' [] [style_tag_of selected_tags] # cs))) \<and>
          find_tag ''head'' soup' = Some (Tag ''head'' [] [style_tag_of selected_tags]) \<and>
          mset (tag_names soup') = mset (tag_names soup) + {#''head'', ''style''#})"
proof -
  from modify_try_success[OF assms] obtain content soup soup' where
    s: "read_text lib w path = Inr content" "parse lib content = Some soup"
       "add_style (css selected_tags) soup = Inr soup'" "files w' path = Some (render lib soup')"
    by blast
  have "case find_tag ''head'' soup of
        Some h \<Rightarrow>
          (\<exists>a cs. h = Tag ''head'' a cs \<and>
             find_tag ''head'' soup' = Some (Tag ''head'' a (cs @ [style_tag_of selected_tags]))) \<and>
          mset (tag_names soup') = mset (tag_names soup) + {#''style''#}
      | None \<Rightarrow>
          (\<exists>a cs. find_tag ''html'' soup = Some (Tag ''html'' a cs) \<and>
             find_tag ''html'' soup' =
               Some (Tag ''html'' a (Tag ''head'' [] [style_tag_of selected_tags] # cs))) \<and>
          find_tag ''head'' soup' = Some (Tag ''head'' [] [style_tag_of selected_tags]) \<and>
          mset (tag_names soup') = mset (tag_names soup) + {#''head'', ''style''#}"
  proof (cases "find_tag ''head'' soup")
    case (Some h)
    from add_style_with_head[OF Some, of selected_tags] s(3) show ?thesis
      unfolding Some by auto
  next
    case None
    from add_style_Inr[OF s(3)] None obtain h where h: "find_tag ''html'' soup = Some h" by auto
    from add_style_without_head[OF None h, of selected_tags] s(3) h show ?thesis
      unfolding None by auto
  qed
  then show ?thesis using s by blast
qed


theorem style_block_placement_witness:
  "\<exists>soup'.
     files (snd (modify_try (table_library [head_tree]) no_faults [''p''] ''/site/index.html''
                   (site_world head_tree))) ''/site/index.html'' = Some (render_plain soup') \<and>
     find_tag ''head'' soup' =
       Some (Tag ''head'' [] [Tag ''title'' [] [NavigableString ''t''], style_tag_of [''p'']])"
proof -
  let ?lib = "table_library [head_tree]"
  let ?t = "modify_try ?lib no_faults [''p''] ''/site/index.html'' (site_world head_tree)"
  have "fst ?t = Inr ''/site/backups/index.html''" by code_simp
  then have t: "?t = (Inr ''/site/backups/index.html'', snd ?t)" by (simp add: prod_eq_iff)
  have r: "read_text ?lib (site_world head_tree) ''/site/index.html'' = Inr (render_plain head_tree)"
    by code_simp
  have p: "parse ?lib (render_plain head_tree) = Some head_tree" by code_simp
  have h: "find_tag ''head'' head_tree = Some (Tag ''head'' [] [Tag ''title'' [] [NavigableString ''t'']])"
    by code_simp
  have rp: "render ?lib = render_plain" by (simp add: table_library_def)
  from style_block_placement[OF t] obtain content soup soup' where
    s: "read_text ?lib (site_world head_tree) ''/site/index.html'' = Inr content"
       "parse ?lib content = Some soup"
       "files (snd ?t) ''/site/index.html'' = Some (render ?lib soup')"
       "case find_tag ''head'' soup of
        Some h \<Rightarrow>
          (\<exists>a cs. h = Tag ''head'' a cs \<and>
             find_tag ''head'' soup' = Some (Tag ''head'' a (cs @ [style_tag_of [''p'']]))) \<and>
          mset (tag_names soup') = mset (tag_names soup) + {#''style''#}
      | None \<Rightarrow>
          (\<exists>a cs. find_tag ''html'' soup = Some (Tag ''html'' a cs) \<and>
             find_tag ''html'' soup' =
               Some (Tag ''html'' a (Tag ''head'' [] [style_tag_of [''p'']] # cs))) \<and>
          find_tag ''head'' soup' = Some (Tag ''head'' [] [style_tag_of [''p'']]) \<and>
          mset (tag_names soup') = mset (tag_names soup) + {#''head'', ''style''#}"
    by blast
  from s(1) r have "content = render_plain head_tree" by simp
  with s(2) p have "soup = head_tree" by simp
  with s(4) h have "find_tag ''head'' soup' =
       Some (Tag ''head'' [] [Tag ''title'' [] [NavigableString ''t''], style_tag_of [''p'']])"
    by simp
  with s(3) rp show ?thesis by auto
qed

text \<open>
  Claim C9 on a document without an \<^verbatim>\<open>html\<close> element. The file holds
  \<^verbatim>\<open><div><p></p></div>\<close>, which parses, and \<^verbatim>\<open>p\<close> is selected. The tree has no
  \<^verbatim>\<open>head\<close>, so \<^verbatim>\<open>modify_html\<close> makes one and goes on to put it into
  \<^verbatim>\<open>soup.html\<close> (line 282), which is \<^verbatim>\<open>None\<close>: the \<^verbatim>\<open>AttributeError\<close> is
  reported and the file system is what it was. The tags extracted afterwards are those
  extracted before, \<^verbatim>\<open>div\<close> and \<^verbatim>\<open>p\<close>, without \<^verbatim>\<open>style\<close> and without
  \<^verbatim>\<open>head\<close>; this holds whatever the parts of the library the model leaves open.
\<close>

theorem fragment_reextraction_without_style:
  "modify_html (bs4_library p r) no_faults [''p''] site_window
       (text_world ''<div><p></p></div>'') =
     (site_window\<lparr>console := [ModifyError AttributeError]\<rparr>, text_world ''<div><p></p></div>'')
   \<and> tags_list (load_html_tags (bs4_library p r) site_window
          (text_world ''<div><p></p></div>'')) = [''div'', ''p'']
   \<and> tags_list (load_html_tags (bs4_library p r)
          (fst (modify_html (bs4_library p r) no_faults [''p''] site_window
       (text_world ''<div><p></p></div>'')))
          (snd (modify_html (bs4_library p r) no_faults [''p''] site_window
       (text_world ''<div><p></p></div>'')))) = [''div'', ''p'']"
proof -
  let ?t = "''<div><p></p></div>''"
  let ?soup = "build (is_void p) [StartTag ''div'' [], StartTag ''p'' [], EndTag ''p'', EndTag ''div'']"
  have 1: "read_text (bs4_library p r) (text_world ?t) (html_file site_window) = Inr ?t"
    unfolding ex_site_window by (rule read_text_world) (rule ex_texts)+
  note 2 = ex_fragment_tree(1)[of p r]
  note n = ex_fragment_tree(2)[of p]
  have "set (tag_names ?soup) = {''div'', ''p''}" using mset_eq_setD[OF n] by simp
  then have h: "find_tag ''head'' ?soup = None" "find_tag ''html'' ?soup = None"
    by (simp_all add: find_tag_None)
  have m: "modify_html (bs4_library p r) no_faults [''p''] site_window
       (text_world ''<div><p></p></div>'') =
     (site_window\<lparr>console := [ModifyError AttributeError]\<rparr>, text_world ?t)"
    using 1 2 h
    by (simp add: modify_html_def modify_try_def add_style_fails ex_site_window log_message_def)
  have l: "tags_list (load_html_tags (bs4_library p r) site_window (text_world ?t)) = [''div'', ''p'']"
    unfolding set_tags_list[OF 1 2] using sort_remdups_mset[OF n] by (simp add: ex_sorted_names(2))
  have w: "html_file (site_window\<lparr>console := [ModifyError AttributeError]\<rparr>) = html_file site_window"
    by simp
  have l': "tags_list (load_html_tags (bs4_library p r)
      (site_window\<lparr>console := [ModifyError AttributeError]\<rparr>) (text_world ?t)) = [''div'', ''p'']"
    unfolding set_tags_list[OF 1[folded w] 2] using sort_remdups_mset[OF n]
    by (simp add: ex_sorted_names(2))
  show ?thesis unfolding m using l l' by simp
qed

theorem fragment_reextraction_without_style_witness:
  "console (fst (modify_html (bs4_library parser0 render_plain) no_faults [''p''] site_window
       (text_world ''<div><p></p></div>''))) = [ModifyError AttributeError]
   \<and> files (snd (modify_html (bs4_library parser0 render_plain) no_faults [''p''] site_window
       (text_world ''<div><p></p></div>''))) ''/site/index.html'' = Some ''<div><p></p></div>''
   \<and> ''style'' \<notin> set (tags_list (load_html_tags (bs4_library parser0 render_plain)
          (fst (modify_html (bs4_library parser0 render_plain) no_faults [''p''] site_window
               (text_world ''<div><p></p></div>'')))
          (snd (modify_html (bs4_library parser0 render_plain) no_faults [''p''] site_window
               (text_world ''<div><p></p></div>'')))))
   \<and> ''head'' \<notin> set (tags_list (load_html_tags (bs4_library parser0 render_plain)
          (fst (modify_html (bs4_library parser0 render_plain) no_faults [''p''] site_window
               (text_world ''<div><p></p></div>'')))
          (snd (modify_html (bs4_library parser0 render_plain) no_faults [''p''] site_window
               (text_world ''<div><p></p></div>'')))))"
proof -
  note t = fragment_reextraction_without_style[of parser0 render_plain]
  from t have 1: "modify_html (bs4_library parser0 render_plain) no_faults [''p''] site_window
       (text_world ''<div><p></p></div>'') =
     (site_window\<lparr>console := [ModifyError AttributeError]\<rparr>, text_world ''<div><p></p></div>'')"
    by blast
  from t have 2: "tags_list (load_html_tags (bs4_library parser0 render_plain)
          (fst (modify_html (bs4_library parser0 render_plain) no_faults [''p''] site_window
               (text_world ''<div><p></p></div>'')))
          (snd (modify_html (bs4_library parser0 render_plain) no_faults [''p''] site_window
               (text_world ''<div><p></p></div>'')))) = [''div'', ''p'']"
    by blast
  show ?thesis unfolding 2 unfolding 1 by (simp add: text_world_def)
qed

text \<open>
  Claim C10. For a chosen document that is read and parsed to a tree with neither a
  \<^verbatim>\<open>head\<close> nor an \<^verbatim>\<open>html\<close> tag, and a non-empty selection, \<^verbatim>\<open>modify_html\<close> reports
  the \<^verbatim>\<open>AttributeError\<close> and leaves the whole file system as it was: no directory is
  made and no file is written.
\<close>

theorem fragment_fails_before_any_write:
  assumes "html_file win \<noteq> []" and "selected_tags \<noteq> []"
    and "read_text lib w (html_file win) = Inr content" and "parse lib content = Some soup"
    and "find_tag ''head'' soup = None" and "find_tag ''html'' soup = None"
  shows "modify_html lib flt selected_tags win w = (log_message (ModifyError AttributeError) win, w)"
  using assms by (simp add: modify_html_def modify_try_def add_style_fails)

theorem fragment_fails_before_any_write_witness:
  "modify_html (table_library [fragment_tree]) no_faults [''p''] site_window
      (site_world fragment_tree) =
     (site_window\<lparr>console := [ModifyError AttributeError]\<rparr>, site_world fragment_tree)"
proof -
  have 0: "html_file site_window \<noteq> []" "[''p''] \<noteq> []" by (simp_all add: ex_site_window)
  have 1: "read_text (table_library [fragment_tree]) (site_world fragment_tree)
      (html_file site_window) = Inr ''<p>hi</p>''"
    by code_simp
  have 2: "parse (table_library [fragment_tree]) ''<p>hi</p>'' = Some fragment_tree"
    by code_simp
  have 3: "find_tag ''head'' fragment_tree = None" "find_tag ''html'' fragment_tree = None"
    by code_simp+
  show ?thesis
    using fragment_fails_before_any_write[OF 0 1 2 3, of no_faults]
    by (simp add: ex_site_window log_message_def)
qed

end
